theory Spec2Isabelle
  imports Complex_Main
begin

section \<open>Strings\<close>

text \<open>
  The program's strings are modelled as \<^typ>\<open>string\<close>, a character outside ASCII as its
  UTF-8 bytes. \<open>str_includes\<close> is the substring test of \<^verbatim>\<open>String.prototype.includes\<close>.

  \<open>toLowerCase\<close> maps the letters A to Z to a to z. Two characters outside ASCII have a
  lower case with an ASCII letter in it and are mapped as the method of the source maps
  them: the Kelvin sign U+212A to k, and U+0130 to i followed by the combining dot U+0307.
  Every other character is left as it is. The method of the source maps the capital
  letters of other alphabets too, to letters outside ASCII; the program only compares the
  lower-cased text with ASCII words and searches it for ASCII words, and no byte of a
  character outside ASCII is a byte of such a word, so those letters decide none of its
  tests.
\<close>

definition lower_table :: "(char \<times> char) list" where
  "lower_table = zip ''ABCDEFGHIJKLMNOPQRSTUVWXYZ'' ''abcdefghijklmnopqrstuvwxyz''"

definition lower_char :: "char \<Rightarrow> char" where
  "lower_char c = (case map_of lower_table c of Some d \<Rightarrow> d | None \<Rightarrow> c)"

fun toLowerCase :: "string \<Rightarrow> string" where
  "toLowerCase (a # b # c # cs) =
     (if a = CHR 0xE2 \<and> b = CHR 0x84 \<and> c = CHR 0xAA then CHR ''k'' # toLowerCase cs
      else if a = CHR 0xC4 \<and> b = CHR 0xB0
        then CHR ''i'' # CHR 0xCC # CHR 0x87 # toLowerCase (c # cs)
      else lower_char a # toLowerCase (b # c # cs))"
| "toLowerCase [a, b] =
     (if a = CHR 0xC4 \<and> b = CHR 0xB0 then [CHR ''i'', CHR 0xCC, CHR 0x87]
      else [lower_char a, lower_char b])"
| "toLowerCase [a] = [lower_char a]"
| "toLowerCase [] = []"

fun startsWith :: "string \<Rightarrow> string \<Rightarrow> bool" where
  "startsWith s [] = True"
| "startsWith [] (p # ps) = False"
| "startsWith (c # cs) (p # ps) = (c = p \<and> startsWith cs ps)"

fun str_includes :: "string \<Rightarrow> string \<Rightarrow> bool" where
  "str_includes [] pat = startsWith [] pat"
| "str_includes (c # cs) pat = (startsWith (c # cs) pat \<or> str_includes cs pat)"

section \<open>Data model of the router\<close>

text \<open>
  \<^verbatim>\<open>PathwayStep\<close> and \<^verbatim>\<open>Pathway\<close> follow the typedefs at the head of the router. The
  property \<open>current\<close> is optional in the source: \<open>None\<close> is a step object without the
  property (read as \<^verbatim>\<open>undefined\<close>, which is falsy). Of the string fields the records keep
  the ones that identify a template or a step and the ones the deadline code reads; the
  other advisory texts (descriptions, guidance lists, contact data) are display data that
  no function modelled here reads, and they are left out.
\<close>

record PathwayStep =
  name :: string
  timeline :: string
  current :: "bool option"
  acknowledgmentTimeline :: string

record Pathway =
  title :: string
  timeLimit :: string
  steps :: "PathwayStep list"
  legislation :: string

subsection \<open>The catalogue \<^verbatim>\<open>PATHWAYS\<close>\<close>

definition nhs_trust :: Pathway where
  "nhs_trust = \<lparr>
     title = ''NHS Hospital/Trust Complaint'',
     timeLimit = ''12 months from the event or from when you became aware of the issue'',
     steps = [
       \<lparr>name = ''PALS (Patient Advice & Liaison Service)'',
        timeline = ''Usually responds within a few days'',
        current = Some True,
        acknowledgmentTimeline = ''Same day or next working day''\<rparr>,
       \<lparr>name = ''Formal Complaint to the Trust'',
        timeline = ''Response within 6 months (often 25-40 working days)'',
        current = None,
        acknowledgmentTimeline = ''3 working days''\<rparr>,
       \<lparr>name = ''Parliamentary and Health Service Ombudsman (PHSO)'',
        timeline = ''Investigation can take 6-12 months'',
        current = None,
        acknowledgmentTimeline = ''5 working days''\<rparr>],
     legislation = ''NHS Constitution, Local Authority Social Services and NHS Complaints Regulations 2009''\<rparr>"

definition gp :: Pathway where
  "gp = \<lparr>
     title = ''GP Surgery Complaint'',
     timeLimit = ''12 months from the event or from when you became aware of the issue'',
     steps = [
       \<lparr>name = ''Complain to the GP Practice'',
        timeline = ''Acknowledgement within 3 working days; response usually within 10-25 working days'',
        current = Some True,
        acknowledgmentTimeline = ''3 working days''\<rparr>,
       \<lparr>name = ''NHS Integrated Care Board (ICB)'',
        timeline = ''Response within 6 months'',
        current = None,
        acknowledgmentTimeline = ''3 working days''\<rparr>,
       \<lparr>name = ''Parliamentary and Health Service Ombudsman (PHSO)'',
        timeline = ''Investigation can take 6-12 months'',
        current = None,
        acknowledgmentTimeline = ''5 working days''\<rparr>],
     legislation = ''NHS Constitution, Local Authority Social Services and NHS Complaints Regulations 2009''\<rparr>"

definition social_care :: Pathway where
  "social_care = \<lparr>
     title = ''Social Care Complaint'',
     timeLimit = ''12 months from the event or from when you became aware of the issue'',
     steps = [
       \<lparr>name = ''Complain to the Care Provider'',
        timeline = ''Varies by provider; most respond within 10-20 working days'',
        current = Some True,
        acknowledgmentTimeline = ''3 working days (varies by provider)''\<rparr>,
       \<lparr>name = ''Local Authority Complaint'',
        timeline = ''Usually a staged process over several months'',
        current = None,
        acknowledgmentTimeline = ''3 working days''\<rparr>,
       \<lparr>name = ''Local Government & Social Care Ombudsman (LGSCO)'',
        timeline = ''Investigation typically takes 3-6 months'',
        current = None,
        acknowledgmentTimeline = ''5 working days''\<rparr>],
     legislation = ''Care Act 2014, Health and Social Care Act 2008 (Regulated Activities) Regulations 2014''\<rparr>"

definition council :: Pathway where
  "council = \<lparr>
     title = ''Council Services Complaint'',
     timeLimit = ''12 months from the event (the LGSCO expects complaints within 12 months)'',
     steps = [
       \<lparr>name = ''Contact the Service Directly'',
        timeline = ''Allow 10-15 working days for a response'',
        current = Some True,
        acknowledgmentTimeline = ''5 working days''\<rparr>,
       \<lparr>name = ''Council Complaints Procedure (Stage 1)'',
        timeline = ''Response usually within 10-20 working days'',
        current = None,
        acknowledgmentTimeline = ''3-5 working days''\<rparr>,
       \<lparr>name = ''Council Complaints Procedure (Stage 2)'',
        timeline = ''Response usually within 20 working days'',
        current = None,
        acknowledgmentTimeline = ''3-5 working days''\<rparr>,
       \<lparr>name = ''Local Government & Social Care Ombudsman (LGSCO)'',
        timeline = ''Investigation typically takes 3-6 months'',
        current = None,
        acknowledgmentTimeline = ''5 working days''\<rparr>],
     legislation = ''Relevant council-specific legislation varies by service area''\<rparr>"

definition police :: Pathway where
  "police = \<lparr>
     title = ''Police Complaint'',
     timeLimit = ''12 months from the incident'',
     steps = [
       \<lparr>name = ''Complain to the Police Force'',
        timeline = ''Usually within 10-15 working days for initial response'',
        current = Some True,
        acknowledgmentTimeline = ''15 working days''\<rparr>,
       \<lparr>name = ''Independent Office for Police Conduct (IOPC)'',
        timeline = ''Varies; complex investigations can take months'',
        current = None,
        acknowledgmentTimeline = ''15 working days''\<rparr>],
     legislation = ''Police Reform Act 2002, Police (Complaints and Misconduct) Regulations 2020''\<rparr>"

definition school :: Pathway where
  "school = \<lparr>
     title = ''School Complaint'',
     timeLimit = ''No statutory time limit, but complain as soon as possible'',
     steps = [
       \<lparr>name = ''Raise Informally with Staff'',
        timeline = ''Allow 5-10 school days for a response'',
        current = Some True,
        acknowledgmentTimeline = ''3-5 school days''\<rparr>,
       \<lparr>name = ''Formal Complaint to the Headteacher'',
        timeline = ''Most schools aim to respond within 10-15 school days'',
        current = None,
        acknowledgmentTimeline = ''5 school days (varies by school)''\<rparr>,
       \<lparr>name = ''Governing Body / Academy Trust'',
        timeline = ''Usually convenes a complaints panel within a few weeks'',
        current = None,
        acknowledgmentTimeline = ''5-10 school days''\<rparr>,
       \<lparr>name = ''Department for Education / Local Government Ombudsman'',
        timeline = ''Varies by route'',
        current = None,
        acknowledgmentTimeline = ''Varies''\<rparr>],
     legislation = ''Education Act 2002 (Section 29), School Complaints (England) Regulations 2006 (proposed)''\<rparr>"

definition dwp_decision :: Pathway where
  "dwp_decision = \<lparr>
     title = ''DWP Benefits Decision Challenge'',
     timeLimit = ''1 month from the date of the decision letter'',
     steps = [
       \<lparr>name = ''Request Mandatory Reconsideration'',
        timeline = ''DWP aims for a decision within a few weeks, but it can take longer'',
        current = Some True,
        acknowledgmentTimeline = ''DWP should confirm receipt; follow up if you do not hear back within 2 weeks''\<rparr>,
       \<lparr>name = ''Appeal to the First-tier Tribunal'',
        timeline = ''Hearing typically within a few months of appeal'',
        current = None,
        acknowledgmentTimeline = ''Written acknowledgment within a few weeks''\<rparr>],
     legislation = ''Social Security Act 1998, Tribunal Procedure (First-tier Tribunal) (Social Entitlement Chamber) Rules 2008''\<rparr>"

definition dwp_service :: Pathway where
  "dwp_service = \<lparr>
     title = ''DWP Service Complaint'',
     timeLimit = ''12 months (ICE expects complaints within 12 months of completing DWP's process)'',
     steps = [
       \<lparr>name = ''DWP Complaints Procedure'',
        timeline = ''Response usually within 15 working days'',
        current = Some True,
        acknowledgmentTimeline = ''3-5 working days''\<rparr>,
       \<lparr>name = ''Independent Case Examiner (ICE)'',
        timeline = (''Several months '' @ [CHR 0xE2, CHR 0x80, CHR 0x94] @ '' ICE has a significant backlog''),
        current = None,
        acknowledgmentTimeline = ''A few weeks (due to volume)''\<rparr>,
       \<lparr>name = ''Parliamentary and Health Service Ombudsman (PHSO)'',
        timeline = ''Several months'',
        current = None,
        acknowledgmentTimeline = ''5 working days''\<rparr>],
     legislation = ''DWP Complaints Procedure, Parliamentary Commissioner Act 1967''\<rparr>"

definition dwp :: Pathway where
  "dwp = \<lparr>
     title = ''DWP Benefits Complaint'',
     timeLimit = ''1 month for decision challenges; 12 months for service complaints'',
     steps = [
       \<lparr>name = ''Mandatory Reconsideration (for decision challenges)'',
        timeline = ''DWP aims for a decision within a few weeks'',
        current = Some True,
        acknowledgmentTimeline = ''Follow up if no response within 2 weeks''\<rparr>,
       \<lparr>name = ''Appeal to the Tribunal (for decision challenges)'',
        timeline = ''Hearing typically within a few months of appeal'',
        current = None,
        acknowledgmentTimeline = ''Written acknowledgment within a few weeks''\<rparr>,
       \<lparr>name = ''DWP Complaints Procedure (for service issues)'',
        timeline = ''Response usually within 15 working days'',
        current = None,
        acknowledgmentTimeline = ''3-5 working days''\<rparr>,
       \<lparr>name = ''Independent Case Examiner / PHSO'',
        timeline = ''Several months'',
        current = None,
        acknowledgmentTimeline = ''A few weeks''\<rparr>],
     legislation = ''Social Security Act 1998, Tribunal Procedure (First-tier Tribunal) (Social Entitlement Chamber) Rules 2008''\<rparr>"

definition hmrc :: Pathway where
  "hmrc = \<lparr>
     title = ''HMRC Complaint'',
     timeLimit = ''12 months (the Adjudicator expects complaints within 6 months of HMRC's final response)'',
     steps = [
       \<lparr>name = ''HMRC Complaints Process (Tier 1)'',
        timeline = ''HMRC aims to respond within 15 working days'',
        current = Some True,
        acknowledgmentTimeline = ''Verbal or written acknowledgment within a few days''\<rparr>,
       \<lparr>name = ''HMRC Tier 2 Review'',
        timeline = ''Usually within 15 working days'',
        current = None,
        acknowledgmentTimeline = ''A few days''\<rparr>,
       \<lparr>name = ''The Adjudicator's Office'',
        timeline = ''Investigation can take several months'',
        current = None,
        acknowledgmentTimeline = ''10 working days''\<rparr>,
       \<lparr>name = ''Parliamentary and Health Service Ombudsman (PHSO)'',
        timeline = ''Several months'',
        current = None,
        acknowledgmentTimeline = ''5 working days''\<rparr>],
     legislation = ''HMRC Charter, Finance Act (various)''\<rparr>"

definition nhs_trust_scotland :: Pathway where
  "nhs_trust_scotland = \<lparr>
     title = ''NHS Scotland Complaint'',
     timeLimit = ''12 months from the event or from when you became aware of the issue'',
     steps = [
       \<lparr>name = ''Formal Complaint to the NHS Board'',
        timeline = ''Response within 20 working days'',
        current = Some True,
        acknowledgmentTimeline = ''3 working days''\<rparr>,
       \<lparr>name = ''Scottish Public Services Ombudsman (SPSO)'',
        timeline = ''Investigation can take several months'',
        current = None,
        acknowledgmentTimeline = ''5 working days''\<rparr>],
     legislation = ''NHS Scotland Complaints Procedure, Scottish Public Services Ombudsman Act 2002''\<rparr>"

definition gp_scotland :: Pathway where
  "gp_scotland = \<lparr>
     title = ''GP Surgery Complaint (Scotland)'',
     timeLimit = ''12 months from the event or from when you became aware of the issue'',
     steps = [
       \<lparr>name = ''Complain to the GP Practice'',
        timeline = ''Response within 20 working days'',
        current = Some True,
        acknowledgmentTimeline = ''3 working days''\<rparr>,
       \<lparr>name = ''Scottish Public Services Ombudsman (SPSO)'',
        timeline = ''Investigation can take several months'',
        current = None,
        acknowledgmentTimeline = ''5 working days''\<rparr>],
     legislation = ''NHS Scotland Complaints Procedure, Scottish Public Services Ombudsman Act 2002''\<rparr>"

definition council_scotland :: Pathway where
  "council_scotland = \<lparr>
     title = ''Council Services Complaint (Scotland)'',
     timeLimit = ''12 months from the event (the SPSO expects complaints within 12 months)'',
     steps = [
       \<lparr>name = (''Council Complaints (Stage 1 '' @ [CHR 0xE2, CHR 0x80, CHR 0x94] @ '' Frontline Resolution)''),
        timeline = ''Response within 5 working days'',
        current = Some True,
        acknowledgmentTimeline = ''3 working days''\<rparr>,
       \<lparr>name = (''Council Complaints (Stage 2 '' @ [CHR 0xE2, CHR 0x80, CHR 0x94] @ '' Investigation)''),
        timeline = ''Response within 20 working days'',
        current = None,
        acknowledgmentTimeline = ''3 working days''\<rparr>,
       \<lparr>name = ''Scottish Public Services Ombudsman (SPSO)'',
        timeline = ''Investigation can take several months'',
        current = None,
        acknowledgmentTimeline = ''5 working days''\<rparr>],
     legislation = ''Scottish Public Services Ombudsman Act 2002, Local Government (Scotland) Act 1973''\<rparr>"

definition police_scotland :: Pathway where
  "police_scotland = \<lparr>
     title = ''Police Scotland Complaint'',
     timeLimit = ''12 months from the incident'',
     steps = [
       \<lparr>name = ''Complain to Police Scotland'',
        timeline = ''Usually within 15 working days for initial response'',
        current = Some True,
        acknowledgmentTimeline = ''15 working days''\<rparr>,
       \<lparr>name = ''Police Investigations & Review Commissioner (PIRC)'',
        timeline = ''Varies; investigations can take months'',
        current = None,
        acknowledgmentTimeline = ''10 working days''\<rparr>],
     legislation = ''Police and Fire Reform (Scotland) Act 2012, Police Investigations & Review Commissioner''\<rparr>"

definition social_care_scotland :: Pathway where
  "social_care_scotland = \<lparr>
     title = ''Social Care Complaint (Scotland)'',
     timeLimit = ''12 months from the event'',
     steps = [
       \<lparr>name = ''Complain to the Care Provider'',
        timeline = ''Usually within 20 working days'',
        current = Some True,
        acknowledgmentTimeline = ''3 working days''\<rparr>,
       \<lparr>name = ''Local Authority Social Work Complaints'',
        timeline = ''Varies; follows the council's two-stage process'',
        current = None,
        acknowledgmentTimeline = ''3 working days''\<rparr>,
       \<lparr>name = ''Scottish Public Services Ombudsman (SPSO)'',
        timeline = ''Investigation can take several months'',
        current = None,
        acknowledgmentTimeline = ''5 working days''\<rparr>],
     legislation = ''Scottish Public Services Ombudsman Act 2002, Social Work (Scotland) Act 1968, Public Services Reform (Scotland) Act 2010''\<rparr>"

definition nhs_trust_wales :: Pathway where
  "nhs_trust_wales = \<lparr>
     title = ''NHS Wales Complaint'',
     timeLimit = ''12 months from the event or from when you became aware of the issue'',
     steps = [
       \<lparr>name = ''Formal Concern to the Health Board (Putting Things Right)'',
        timeline = ''Investigation within 30 working days; complex cases may take longer'',
        current = Some True,
        acknowledgmentTimeline = ''2 working days''\<rparr>,
       \<lparr>name = ''Public Services Ombudsman for Wales (PSOW)'',
        timeline = ''Investigation can take several months'',
        current = None,
        acknowledgmentTimeline = ''5 working days''\<rparr>],
     legislation = ''NHS (Concerns, Complaints and Redress Arrangements) (Wales) Regulations 2011, Public Services Ombudsman (Wales) Act 2019''\<rparr>"

definition gp_wales :: Pathway where
  "gp_wales = \<lparr>
     title = ''GP Surgery Complaint (Wales)'',
     timeLimit = ''12 months from the event or from when you became aware of the issue'',
     steps = [
       \<lparr>name = ''Complain to the GP Practice or Health Board'',
        timeline = ''Investigation within 30 working days'',
        current = Some True,
        acknowledgmentTimeline = ''2 working days''\<rparr>,
       \<lparr>name = ''Public Services Ombudsman for Wales (PSOW)'',
        timeline = ''Investigation can take several months'',
        current = None,
        acknowledgmentTimeline = ''5 working days''\<rparr>],
     legislation = ''NHS (Concerns, Complaints and Redress Arrangements) (Wales) Regulations 2011, Public Services Ombudsman (Wales) Act 2019''\<rparr>"

definition council_wales :: Pathway where
  "council_wales = \<lparr>
     title = ''Council Services Complaint (Wales)'',
     timeLimit = ''12 months from the event (the PSOW expects complaints within 12 months)'',
     steps = [
       \<lparr>name = (''Council Complaints (Stage 1 '' @ [CHR 0xE2, CHR 0x80, CHR 0x94] @ '' Informal/Early Resolution)''),
        timeline = ''Response within 10 working days'',
        current = Some True,
        acknowledgmentTimeline = ''2 working days''\<rparr>,
       \<lparr>name = (''Council Complaints (Stage 2 '' @ [CHR 0xE2, CHR 0x80, CHR 0x94] @ '' Formal Investigation)''),
        timeline = ''Response within 20 working days'',
        current = None,
        acknowledgmentTimeline = ''5 working days''\<rparr>,
       \<lparr>name = ''Public Services Ombudsman for Wales (PSOW)'',
        timeline = ''Investigation can take several months'',
        current = None,
        acknowledgmentTimeline = ''5 working days''\<rparr>],
     legislation = ''Public Services Ombudsman (Wales) Act 2019, Local Government Act 2000''\<rparr>"

definition police_wales :: Pathway where
  "police_wales = \<lparr>
     title = ''Police Complaint (Wales)'',
     timeLimit = ''12 months from the incident'',
     steps = [
       \<lparr>name = ''Complain to the Police Force'',
        timeline = ''Usually within 10-15 working days for initial response'',
        current = Some True,
        acknowledgmentTimeline = ''15 working days''\<rparr>,
       \<lparr>name = ''Independent Office for Police Conduct (IOPC)'',
        timeline = ''Varies; complex investigations can take months'',
        current = None,
        acknowledgmentTimeline = ''15 working days''\<rparr>],
     legislation = ''Police Reform Act 2002, Police (Complaints and Misconduct) Regulations 2020''\<rparr>"

definition social_care_wales :: Pathway where
  "social_care_wales = \<lparr>
     title = ''Social Care Complaint (Wales)'',
     timeLimit = ''12 months from the event'',
     steps = [
       \<lparr>name = ''Complain to the Care Provider'',
        timeline = ''Usually within 20 working days'',
        current = Some True,
        acknowledgmentTimeline = ''2 working days''\<rparr>,
       \<lparr>name = ''Local Authority Social Services Complaints'',
        timeline = ''Follows the council's two-stage process'',
        current = None,
        acknowledgmentTimeline = ''2 working days''\<rparr>,
       \<lparr>name = ''Public Services Ombudsman for Wales (PSOW)'',
        timeline = ''Investigation can take several months'',
        current = None,
        acknowledgmentTimeline = ''5 working days''\<rparr>],
     legislation = ''Public Services Ombudsman (Wales) Act 2019, Social Services and Well-being (Wales) Act 2014''\<rparr>"

definition nhs_trust_ni :: Pathway where
  "nhs_trust_ni = \<lparr>
     title = ''Health & Social Care Complaint (Northern Ireland)'',
     timeLimit = ''6 months from the event or from when you became aware of the issue'',
     steps = [
       \<lparr>name = ''Formal Complaint to the HSC Trust'',
        timeline = ''Acknowledgment within 2 working days; response usually within 20 working days'',
        current = Some True,
        acknowledgmentTimeline = ''2 working days''\<rparr>,
       \<lparr>name = ''Northern Ireland Public Services Ombudsman (NIPSO)'',
        timeline = ''Investigation can take several months'',
        current = None,
        acknowledgmentTimeline = ''5 working days''\<rparr>],
     legislation = ''Health and Social Care (Reform) Act (Northern Ireland) 2009, Commissioner for Complaints (NI) Order 1996''\<rparr>"

definition gp_ni :: Pathway where
  "gp_ni = \<lparr>
     title = ''GP Surgery Complaint (Northern Ireland)'',
     timeLimit = ''6 months from the final response to escalate to NIPSO'',
     steps = [
       \<lparr>name = ''Complain to the GP Practice'',
        timeline = ''Response usually within 20 working days'',
        current = Some True,
        acknowledgmentTimeline = ''2 working days''\<rparr>,
       \<lparr>name = ''Northern Ireland Public Services Ombudsman (NIPSO)'',
        timeline = ''Investigation can take several months'',
        current = None,
        acknowledgmentTimeline = ''5 working days''\<rparr>],
     legislation = ''Health and Social Care (Reform) Act (NI) 2009, Commissioner for Complaints (NI) Order 1996''\<rparr>"

definition council_ni :: Pathway where
  "council_ni = \<lparr>
     title = ''Council Services Complaint (Northern Ireland)'',
     timeLimit = ''6 months from the final response to escalate to NIPSO'',
     steps = [
       \<lparr>name = ''Council Complaints Procedure'',
        timeline = ''Response usually within 15-20 working days'',
        current = Some True,
        acknowledgmentTimeline = ''3 working days''\<rparr>,
       \<lparr>name = ''Northern Ireland Public Services Ombudsman (NIPSO)'',
        timeline = ''Investigation can take several months'',
        current = None,
        acknowledgmentTimeline = ''5 working days''\<rparr>],
     legislation = ''Commissioner for Complaints (NI) Order 1996, Local Government Act (Northern Ireland) 2014''\<rparr>"

definition police_ni :: Pathway where
  "police_ni = \<lparr>
     title = ''PSNI Complaint (Northern Ireland)'',
     timeLimit = ''12 months from the incident'',
     steps = [
       \<lparr>name = ''Police Ombudsman for Northern Ireland'',
        timeline = ''Varies by complexity; they will explain the expected timeline'',
        current = Some True,
        acknowledgmentTimeline = ''5 working days''\<rparr>],
     legislation = ''Police (Northern Ireland) Act 1998, Police (Northern Ireland) Act 2000''\<rparr>"

definition social_care_ni :: Pathway where
  "social_care_ni = \<lparr>
     title = ''Social Care Complaint (Northern Ireland)'',
     timeLimit = ''6 months from the final response to escalate to NIPSO'',
     steps = [
       \<lparr>name = ''Complain to the Care Provider or HSC Trust'',
        timeline = ''Usually within 20 working days'',
        current = Some True,
        acknowledgmentTimeline = ''2 working days''\<rparr>,
       \<lparr>name = ''Northern Ireland Public Services Ombudsman (NIPSO)'',
        timeline = ''Investigation can take several months'',
        current = None,
        acknowledgmentTimeline = ''5 working days''\<rparr>],
     legislation = ''Health and Social Care (Reform) Act (NI) 2009, Commissioner for Complaints (NI) Order 1996''\<rparr>"

definition other_gov :: Pathway where
  "other_gov = \<lparr>
     title = ''Government Body Complaint'',
     timeLimit = ''12 months is a general guideline (the PHSO expects complaints within 12 months)'',
     steps = [
       \<lparr>name = ''Department's Own Complaints Procedure'',
        timeline = ''Usually within 15-20 working days'',
        current = Some True,
        acknowledgmentTimeline = ''3-5 working days''\<rparr>,
       \<lparr>name = ''Parliamentary and Health Service Ombudsman (PHSO)'',
        timeline = ''Investigation can take several months'',
        current = None,
        acknowledgmentTimeline = ''5 working days''\<rparr>],
     legislation = ''Varies by department and issue''\<rparr>"

subsection \<open>Objects, references and the store\<close>

text \<open>
  The catalogue entries are objects shared by every caller, and \<^verbatim>\<open>adjustForStepsTaken\<close>
  either hands such an object back or builds a new one. Objects therefore live in a store
  and are named by references. Each catalogue entry is written as its own object literal,
  so the object graphs of two entries share nothing and one reference stands for a pathway
  together with its step objects.
\<close>

type_synonym ref = nat

record store =
  objs :: "ref \<Rightarrow> Pathway option"
  fresh :: ref

text \<open>
  A value that a property read on \<^verbatim>\<open>PATHWAYS\<close> can give: \<^verbatim>\<open>undefined\<close>, a pathway
  object, or a member that the object literal inherits from \<^verbatim>\<open>Object.prototype\<close>
  (built-in functions, and the prototype object itself under \<^verbatim>\<open>__proto__\<close>).
\<close>

datatype jsvalue = Undefined | PathwayRef ref | Inherited string

definition truthy :: "jsvalue \<Rightarrow> bool" where
  "truthy v = (v \<noteq> Undefined)"

definition PATHWAYS :: "(string \<times> ref) list" where
  "PATHWAYS =
    [(''nhs_trust'', 0), (''gp'', 1), (''social_care'', 2), (''council'', 3),
     (''police'', 4), (''school'', 5), (''dwp_decision'', 6), (''dwp_service'', 7),
     (''dwp'', 8), (''hmrc'', 9),
     (''nhs_trust_scotland'', 10), (''gp_scotland'', 11), (''council_scotland'', 12),
     (''police_scotland'', 13), (''social_care_scotland'', 14),
     (''nhs_trust_wales'', 15), (''gp_wales'', 16), (''council_wales'', 17),
     (''police_wales'', 18), (''social_care_wales'', 19),
     (''nhs_trust_ni'', 20), (''gp_ni'', 21), (''council_ni'', 22), (''police_ni'', 23),
     (''social_care_ni'', 24), (''other_gov'', 25)]"

definition catalog :: "(ref \<times> Pathway) list" where
  "catalog =
    [(0, nhs_trust), (1, gp), (2, social_care), (3, council), (4, police), (5, school),
     (6, dwp_decision), (7, dwp_service), (8, dwp), (9, hmrc),
     (10, nhs_trust_scotland), (11, gp_scotland), (12, council_scotland),
     (13, police_scotland), (14, social_care_scotland),
     (15, nhs_trust_wales), (16, gp_wales), (17, council_wales), (18, police_wales),
     (19, social_care_wales),
     (20, nhs_trust_ni), (21, gp_ni), (22, council_ni), (23, police_ni),
     (24, social_care_ni), (25, other_gov)]"

definition initial_store :: store where
  "initial_store = \<lparr>objs = map_of catalog, fresh = 26\<rparr>"

definition deref :: "store \<Rightarrow> jsvalue \<Rightarrow> Pathway option" where
  "deref \<sigma> v = (case v of PathwayRef r \<Rightarrow> objs \<sigma> r | _ \<Rightarrow> None)"

text \<open>
  The names every object literal inherits from \<^verbatim>\<open>Object.prototype\<close>. They belong to the
  language, not to the repository; each of them reads as a function or an object, hence as
  a truthy value.
\<close>

definition Object_prototype :: "string list" where
  "Object_prototype =
    [''constructor'', ''hasOwnProperty'', ''isPrototypeOf'', ''propertyIsEnumerable'',
     ''toLocaleString'', ''toString'', ''valueOf'', ''__proto__'',
     ''__defineGetter__'', ''__defineSetter__'', ''__lookupGetter__'', ''__lookupSetter__'']"

text \<open>The property read \<^verbatim>\<open>PATHWAYS[key]\<close>: own properties first, then the prototype.\<close>

definition PATHWAYS_get :: "string \<Rightarrow> jsvalue" where
  "PATHWAYS_get key =
     (case map_of PATHWAYS key of
        Some r \<Rightarrow> PathwayRef r
      | None \<Rightarrow> if key \<in> set Object_prototype then Inherited key else Undefined)"

section \<open>The resolver \<^verbatim>\<open>getPathway\<close>\<close>

text \<open>
  The optional arguments are \<^typ>\<open>string option\<close>, \<open>None\<close> for an argument that is absent
  or \<^verbatim>\<open>undefined\<close>. A string is truthy when it is not empty.

  The nation table is an object literal as well. For a \<open>nation\<close> that names an inherited
  member the source interpolates the text of a built-in into the key, which then ends in
  a bracket or a brace and names neither a catalogue entry nor an inherited member, so the
  read gives \<^verbatim>\<open>undefined\<close> and the resolver falls through to the base entry exactly as
  it does for a nation the table does not list.
\<close>

definition str_truthy :: "string option \<Rightarrow> bool" where
  "str_truthy s = (case s of None \<Rightarrow> False | Some t \<Rightarrow> t \<noteq> [])"

definition nationKeys :: "(string \<times> string) list" where
  "nationKeys = [(''Scotland'', ''scotland''), (''Wales'', ''wales''), (''Northern Ireland'', ''ni'')]"

definition nationPathway :: "string \<Rightarrow> string option \<Rightarrow> jsvalue" where
  "nationPathway bodyType nation =
     (case nation of
        None \<Rightarrow> Undefined
      | Some n \<Rightarrow>
          if n \<noteq> [] \<and> n \<noteq> ''England'' then
            (case map_of nationKeys n of
               None \<Rightarrow> Undefined
             | Some nationKey \<Rightarrow> PATHWAYS_get (bodyType @ ''_'' @ nationKey))
          else Undefined)"

definition getPathway :: "string \<Rightarrow> string option \<Rightarrow> string option \<Rightarrow> jsvalue" where
  "getPathway bodyType complaintType nation =
     (if bodyType = ''dwp'' \<and> str_truthy complaintType \<and> complaintType = Some ''decision''
        then PATHWAYS_get ''dwp_decision''
      else if bodyType = ''dwp'' \<and> str_truthy complaintType \<and> complaintType = Some ''service''
        then PATHWAYS_get ''dwp_service''
      else if truthy (nationPathway bodyType nation)
        then nationPathway bodyType nation
      else if truthy (PATHWAYS_get bodyType)
        then PATHWAYS_get bodyType
      else PATHWAYS_get ''other_gov'')"

section \<open>Progress inference: \<^verbatim>\<open>adjustForStepsTaken\<close>\<close>

text \<open>
  Exceptions are values: a \<^verbatim>\<open>TypeError\<close> for a property read or write on
  \<^verbatim>\<open>undefined\<close>, a \<^verbatim>\<open>SyntaxError\<close> from \<^verbatim>\<open>JSON.parse\<close>.
\<close>

datatype error = TypeError | SyntaxError

text \<open>
  \<^verbatim>\<open>JSON.parse(JSON.stringify(pathway))\<close>. A pathway object is plain data, so the round
  trip builds a new object with the same contents at a fresh reference. A built-in
  function stringifies to \<^verbatim>\<open>undefined\<close>, which \<^verbatim>\<open>JSON.parse\<close> rejects; the prototype
  object comes back as an empty object, on which the next statement of the caller
  (\<^verbatim>\<open>adjusted.steps.forEach\<close>) raises. No reference of a program run is dangling; the
  model gives an error there.
\<close>

definition JSON_clone :: "store \<Rightarrow> jsvalue \<Rightarrow> error + (ref \<times> store)" where
  "JSON_clone \<sigma> v =
     (case v of
        PathwayRef r \<Rightarrow>
          (case objs \<sigma> r of
             Some p \<Rightarrow> Inr (fresh \<sigma>, \<sigma>\<lparr>objs := (objs \<sigma>)(fresh \<sigma> \<mapsto> p), fresh := Suc (fresh \<sigma>)\<rparr>)
           | None \<Rightarrow> Inl TypeError)
      | Inherited k \<Rightarrow> if k = ''__proto__'' then Inl TypeError else Inl SyntaxError
      | Undefined \<Rightarrow> Inl SyntaxError)"

definition set_current :: "nat \<Rightarrow> PathwayStep list \<Rightarrow> PathwayStep list" where
  "set_current i ss = ss[i := (ss ! i)\<lparr>current := Some True\<rparr>]"

text \<open>The three keyword tests of the loop body, on the lower-cased text.\<close>

definition ombudsman_class :: "string \<Rightarrow> bool" where
  "ombudsman_class lower =
     (str_includes lower ''ombudsman'' \<or> str_includes lower ''phso'' \<or>
      str_includes lower ''lgsco'' \<or> str_includes lower ''iopc'')"

definition formal_class :: "string \<Rightarrow> bool" where
  "formal_class lower =
     (str_includes lower ''formal'' \<or> str_includes lower ''written'' \<or>
      str_includes lower ''complained'' \<or> str_includes lower ''stage 2'' \<or>
      str_includes lower ''tier 2'')"

definition informal_class :: "string \<Rightarrow> bool" where
  "informal_class lower =
     (str_includes lower ''pals'' \<or> str_includes lower ''spoke'' \<or>
      str_includes lower ''called'' \<or> str_includes lower ''mentioned'' \<or>
      str_includes lower ''raised'' \<or> str_includes lower ''tried'')"

text \<open>
  The \<^verbatim>\<open>for\<close> loop from index \<open>i\<close> on; the result is the step array and \<^verbatim>\<open>foundStep\<close>.
  The source also computes the lower-cased name of step \<open>i\<close> and never uses it. Every
  index written here is in range: the loop body runs only when \<open>i < length ss\<close>.
\<close>

function find_step :: "string \<Rightarrow> PathwayStep list \<Rightarrow> nat \<Rightarrow> PathwayStep list \<times> bool" where
  "find_step lower ss i =
     (if i < length ss then
        if ombudsman_class lower then (set_current (length ss - 1) ss, True)
        else if formal_class lower then
          (if i < length ss - 1 then set_current (i + 1) ss else set_current i ss, True)
        else if informal_class lower then
          (if length ss > 1 then set_current 1 ss else set_current 0 ss, True)
        else find_step lower ss (i + 1)
      else (ss, False))"
  by pat_completeness auto
termination
  by (relation "measure (\<lambda>(lower, ss, i). length ss - i)") auto

declare find_step.simps [simp del]

text \<open>
  What the function does to \<^verbatim>\<open>adjusted.steps\<close> after the clone: clear every marker, run
  the loop, and without a match mark step 0, which raises when there is no step 0.
\<close>

definition cleared :: "PathwayStep list \<Rightarrow> PathwayStep list" where
  "cleared ss = map (\<lambda>s. s\<lparr>current := Some False\<rparr>) ss"

definition adjust_steps :: "string \<Rightarrow> PathwayStep list \<Rightarrow> error + PathwayStep list" where
  "adjust_steps lower ss0 =
     (case find_step lower (cleared ss0) 0 of
        (ss, foundStep) \<Rightarrow>
          if foundStep then Inr ss
          else if ss = [] then Inl TypeError
          else Inr (set_current 0 ss))"

definition adjustForStepsTaken ::
    "store \<Rightarrow> jsvalue \<Rightarrow> string option \<Rightarrow> error + (jsvalue \<times> store)" where
  "adjustForStepsTaken \<sigma> pathway stepsTaken =
     (case stepsTaken of
        None \<Rightarrow> Inr (pathway, \<sigma>)
      | Some text \<Rightarrow>
          if text = [] \<or> toLowerCase text = ''none'' \<or> toLowerCase text = ''no''
          then Inr (pathway, \<sigma>)
          else
            (case JSON_clone \<sigma> pathway of
               Inl e \<Rightarrow> Inl e
             | Inr (a, \<sigma>1) \<Rightarrow>
                 (case objs \<sigma>1 a of
                    None \<Rightarrow> Inl TypeError
                  | Some adjusted \<Rightarrow>
                      (case adjust_steps (toLowerCase text) (steps adjusted) of
                         Inl e \<Rightarrow> Inl e
                       | Inr ss \<Rightarrow>
                           Inr (PathwayRef a,
                                \<sigma>1\<lparr>objs := (objs \<sigma>1)(a \<mapsto> adjusted\<lparr>steps := ss\<rparr>)\<rparr>)))))"

text \<open>The number of steps of a pathway whose \<open>current\<close> flag is \<^verbatim>\<open>true\<close>.\<close>

definition current_count :: "Pathway \<Rightarrow> nat" where
  "current_count p = length (filter (\<lambda>s. current s = Some True) (steps p))"

section \<open>The controller in \<^verbatim>\<open>js/chat.js\<close>\<close>

text \<open>
  The facts record is the object the intake conversation extracts. The model keeps the
  fields the controller passes on or tests; the others are shown on the summary card only.
  \<open>None\<close> is a field that is absent or \<^verbatim>\<open>null\<close>.
\<close>

record Facts =
  bodyType :: string
  complaintType :: "string option"
  nation :: "string option"
  stepsTaken :: "string option"
  safeguardingConcern :: "string option"

record AppState =
  extractedFacts :: "Facts option"
  currentPathway :: "jsvalue option"
  heap :: store

text \<open>
  \<^verbatim>\<open>showPathwayCard\<close> renders the card; rendering maps over \<^verbatim>\<open>pathway.steps\<close> and so
  raises on a value that is not a pathway object.
\<close>

definition showPathwayCard :: "store \<Rightarrow> jsvalue \<Rightarrow> error + unit" where
  "showPathwayCard \<sigma> pathway = (case deref \<sigma> pathway of None \<Rightarrow> Inl TypeError | Some p \<Rightarrow> Inr ())"

text \<open>
  \<^verbatim>\<open>handleConfirmSummary\<close> of \<^verbatim>\<open>js/chat.js\<close>, the handler of the summary card's confirm
  button. It calls \<^verbatim>\<open>getPathway\<close> with two arguments, so the nation is \<^verbatim>\<open>undefined\<close>.
  An exception leaves the handler; the model gives the exception and not the state then.
\<close>

definition handleConfirmSummary :: "AppState \<Rightarrow> error + AppState" where
  "handleConfirmSummary st =
     (case extractedFacts st of
        None \<Rightarrow> Inr st
      | Some facts \<Rightarrow>
          (case adjustForStepsTaken (heap st)
                  (getPathway (bodyType facts) (complaintType facts) None) (stepsTaken facts) of
             Inl e \<Rightarrow> Inl e
           | Inr (p, \<sigma>) \<Rightarrow>
               (case showPathwayCard \<sigma> p of
                  Inl e \<Rightarrow> Inl e
                | Inr _ \<Rightarrow> Inr (st\<lparr>currentPathway := Some p, heap := \<sigma>\<rparr>))))"

subsection \<open>The later revision of the controller\<close>

text \<open>
  The repository carries a second, later text of the controller (it follows the data
  protection assessment under \<^verbatim>\<open>docs\<close>). There the session has a status and the result of
  the postcode lookup, \<^verbatim>\<open>handleConfirmSummary\<close> passes a nation on, and the confirm button
  goes through a safeguarding gate.
\<close>

datatype status = intake | summary | pathway | letter

record AppState2 = AppState +
  resolvedCountry :: "string option"
  sessionStatus :: status

definition handleConfirmSummary2 :: "AppState2 \<Rightarrow> error + AppState2" where
  "handleConfirmSummary2 st =
     (case extractedFacts st of
        None \<Rightarrow> Inr st
      | Some facts \<Rightarrow>
          (let nation' =
                 (if str_truthy (resolvedCountry st) then resolvedCountry st
                  else if str_truthy (nation facts) then nation facts
                  else Some ''England'')
           in case adjustForStepsTaken (heap st)
                     (getPathway (bodyType facts) (complaintType facts) nation') (stepsTaken facts) of
                Inl e \<Rightarrow> Inl e
              | Inr (p, \<sigma>) \<Rightarrow>
                  (case showPathwayCard \<sigma> p of
                     Inl e \<Rightarrow> Inl e
                   | Inr _ \<Rightarrow>
                       Inr (st\<lparr>currentPathway := Some p, heap := \<sigma>, sessionStatus := pathway\<rparr>))))"

definition SERIOUS_CONCERNS :: "string list" where
  "SERIOUS_CONCERNS = [''emergency'', ''crime'', ''child_safeguarding'', ''adult_safeguarding'']"

text \<open>
  The gate offers one button for a serious concern (back to the landing page) and two
  otherwise (acknowledge, which calls \<^verbatim>\<open>handleConfirmSummary\<close>, and pause).
\<close>

datatype gate_button = GoHome | Acknowledge | Pause

definition showSafeguardingGate :: "string \<Rightarrow> gate_button list" where
  "showSafeguardingGate concernType =
     (if concernType \<in> set SERIOUS_CONCERNS then [GoHome] else [Acknowledge, Pause])"

text \<open>
  The click handler that \<^verbatim>\<open>showSummaryCard(facts)\<close> puts on the confirm button. It tests
  the facts of its own card; \<^verbatim>\<open>handleConfirmSummary\<close> reads the session's current facts.
\<close>

definition confirmSummaryClick :: "Facts \<Rightarrow> AppState2 \<Rightarrow> error + (gate_button list \<times> AppState2)" where
  "confirmSummaryClick facts st =
     (case safeguardingConcern facts of
        Some c \<Rightarrow>
          if c \<noteq> [] \<and> c \<noteq> ''none'' then Inr (showSafeguardingGate c, st)
          else map_sum id (Pair []) (handleConfirmSummary2 st)
      | None \<Rightarrow> map_sum id (Pair []) (handleConfirmSummary2 st))"

section \<open>Working days: \<^verbatim>\<open>addWorkingDays\<close>\<close>

text \<open>
  The later revision of the controller computes deadlines. A \<^verbatim>\<open>Date\<close> is an instant, a
  number of milliseconds since the epoch. The time zone belongs to the browser and not to
  the repository; as in the definition of the language it is two functions, parameters of
  the model: \<open>tza_utc t\<close> is the offset of the local clock at the instant \<open>t\<close>, and
  \<open>tza_local l\<close> the offset by which the local time value \<open>l\<close> is turned back into an
  instant. \<^verbatim>\<open>getDay()\<close> reads the local day of the week (0 is Sunday; the epoch was a
  Thursday) and \<^verbatim>\<open>toISOString().slice(0, 10)\<close> the date on the universal clock.
\<close>

definition msPerDay :: int where
  "msPerDay = 86400000"

text \<open>Year, month and day of a day number counted from the epoch (proleptic Gregorian).\<close>

definition civil_from_days :: "int \<Rightarrow> int \<times> int \<times> int" where
  "civil_from_days z0 =
     (let z = z0 + 719468;
          era = z div 146097;
          doe = z - era * 146097;
          yoe = (doe - doe div 1460 + doe div 36524 - doe div 146096) div 365;
          doy = doe - (365 * yoe + yoe div 4 - yoe div 100);
          mp = (5 * doy + 2) div 153;
          d = doy - (153 * mp + 2) div 5 + 1;
          m = (if mp < 10 then mp + 3 else mp - 9);
          y = yoe + era * 400 + (if m \<le> 2 then 1 else 0)
      in (y, m, d))"

definition digit :: "int \<Rightarrow> char" where
  "digit n = ''0123456789'' ! nat (n mod 10)"

definition pad2 :: "int \<Rightarrow> string" where
  "pad2 n = [digit (n div 10), digit n]"

definition pad4 :: "int \<Rightarrow> string" where
  "pad4 n = [digit (n div 1000), digit (n div 100), digit (n div 10), digit n]"

definition pad6 :: "int \<Rightarrow> string" where
  "pad6 n = [digit (n div 100000), digit (n div 10000), digit (n div 1000),
             digit (n div 100), digit (n div 10), digit n]"

text \<open>
  The first ten characters of the ISO text of a day. Years outside 0 to 9999 are written
  with a sign and six digits.
\<close>

definition isoDate :: "int \<Rightarrow> string" where
  "isoDate z =
     (case civil_from_days z of
        (y, m, d) \<Rightarrow>
          take 10
            ((if 0 \<le> y \<and> y \<le> 9999 then pad4 y
              else (if y < 0 then ''-'' else ''+'') @ pad6 (abs y))
             @ ''-'' @ pad2 m @ ''-'' @ pad2 d))"

definition toISODate :: "int \<Rightarrow> string" where
  "toISODate t = isoDate (t div msPerDay)"

definition weekday :: "int \<Rightarrow> int" where
  "weekday z = (z + 4) mod 7"

definition getDay :: "(int \<Rightarrow> int) \<Rightarrow> int \<Rightarrow> int" where
  "getDay tza_utc t = weekday ((t + tza_utc t) div msPerDay)"

text \<open>
  \<^verbatim>\<open>result.setDate(result.getDate() + 1)\<close>: the local time value one day on, with the
  time of day kept, turned back into an instant. Across a change of the clocks the step is
  therefore not of 24 hours. An instant beyond the range of \<^verbatim>\<open>Date\<close> is an invalid date,
  here \<open>None\<close>.
\<close>

definition maxTime :: int where
  "maxTime = 8640000000000000"

definition setDateNext :: "(int \<Rightarrow> int) \<Rightarrow> (int \<Rightarrow> int) \<Rightarrow> int \<Rightarrow> int option" where
  "setDateNext tza_utc tza_local t =
     (let localTime = t + tza_utc t;
          newDate = localTime + msPerDay;
          u = newDate - tza_local newDate
      in if abs u \<le> maxTime then Some u else None)"

definition UK_BANK_HOLIDAYS :: "string list" where
  "UK_BANK_HOLIDAYS =
    [''2025-01-01'', ''2025-04-18'', ''2025-04-21'', ''2025-05-05'', ''2025-05-26'',
     ''2025-08-25'', ''2025-12-25'', ''2025-12-26'',
     ''2026-01-01'', ''2026-04-03'', ''2026-04-06'', ''2026-05-04'', ''2026-05-25'',
     ''2026-08-31'', ''2026-12-25'', ''2026-12-28'']"

text \<open>
  The \<^verbatim>\<open>while\<close> loop. It is not known to end for every argument from the text of the
  function alone, so it is a partial function: \<open>None\<close> is a loop that does not return. On
  an invalid date \<^verbatim>\<open>toISOString\<close> raises a \<^verbatim>\<open>RangeError\<close>.
\<close>

datatype date_error = RangeError

partial_function (option) working_days_loop ::
    "(int \<Rightarrow> int) \<Rightarrow> (int \<Rightarrow> int) \<Rightarrow> int \<Rightarrow> int \<Rightarrow> int \<Rightarrow> (date_error + int) option" where
  "working_days_loop tza_utc tza_local days result added =
     (if added < days then
        (case setDateNext tza_utc tza_local result of
           None \<Rightarrow> Some (Inl RangeError)
         | Some result' \<Rightarrow>
             (let dayOfWeek = getDay tza_utc result';
                  dateStr = toISODate result'
              in if dayOfWeek \<noteq> 0 \<and> dayOfWeek \<noteq> 6 \<and> dateStr \<notin> set UK_BANK_HOLIDAYS
                 then working_days_loop tza_utc tza_local days result' (added + 1)
                 else working_days_loop tza_utc tza_local days result' added))
      else Some (Inr result))"

definition addWorkingDays ::
    "(int \<Rightarrow> int) \<Rightarrow> (int \<Rightarrow> int) \<Rightarrow> int \<Rightarrow> int \<Rightarrow> (date_error + int) option" where
  "addWorkingDays tza_utc tza_local fromDate days =
     working_days_loop tza_utc tza_local days fromDate 0"

section \<open>Fact extraction: \<^verbatim>\<open>extractFacts\<close>\<close>

subsection \<open>JSON values\<close>

text \<open>
  \<^verbatim>\<open>JSON.parse\<close> belongs to the language and is a parameter of the model: a function from
  the text to the parsed value, \<open>None\<close> when it raises a \<^verbatim>\<open>SyntaxError\<close>. An object is
  the list of its members, one entry for each name. A number literal beyond the range of
  the doubles parses to an infinity.
\<close>

datatype number = Finite real | PlusInfinity | MinusInfinity

datatype json =
    JNull
  | JBool bool
  | JNumber number
  | JString string
  | JArray "json list"
  | JObject "(string \<times> json) list"

text \<open>Truthiness of the result of a member read; \<open>None\<close> is \<^verbatim>\<open>undefined\<close>.\<close>

definition js_truthy :: "json option \<Rightarrow> bool" where
  "js_truthy v =
     (case v of
        None \<Rightarrow> False
      | Some JNull \<Rightarrow> False
      | Some (JBool b) \<Rightarrow> b
      | Some (JNumber n) \<Rightarrow> n \<noteq> Finite 0
      | Some (JString s) \<Rightarrow> s \<noteq> []
      | Some (JArray xs) \<Rightarrow> True
      | Some (JObject ms) \<Rightarrow> True)"

text \<open>
  The reads \<^verbatim>\<open>parsed.extractionComplete\<close> and \<^verbatim>\<open>parsed.facts\<close>: a \<^verbatim>\<open>TypeError\<close> on
  \<^verbatim>\<open>null\<close>, the member of an object, and \<^verbatim>\<open>undefined\<close> on every other value, none of
  which has a member of either name.
\<close>

definition get_member :: "json \<Rightarrow> string \<Rightarrow> error + json option" where
  "get_member v key =
     (case v of
        JNull \<Rightarrow> Inl TypeError
      | JObject ms \<Rightarrow> Inr (map_of ms key)
      | _ \<Rightarrow> Inr None)"

subsection \<open>White space\<close>

text \<open>
  The characters that \<^verbatim>\<open>\s\<close> matches and \<^verbatim>\<open>trim\<close> removes, each as its UTF-8 bytes:
  tab, line feed, vertical tab, form feed, carriage return, space, U+00A0, U+1680,
  U+2000 to U+200A, U+2028, U+2029, U+202F, U+205F, U+3000 and U+FEFF.
\<close>

definition white_space :: "string list" where
  "white_space =
    [[CHR 0x09], [CHR 0x0A], [CHR 0x0B], [CHR 0x0C], [CHR 0x0D], [CHR 0x20],
     [CHR 0xC2, CHR 0xA0], [CHR 0xE1, CHR 0x9A, CHR 0x80],
     [CHR 0xE2, CHR 0x80, CHR 0x80], [CHR 0xE2, CHR 0x80, CHR 0x81],
     [CHR 0xE2, CHR 0x80, CHR 0x82], [CHR 0xE2, CHR 0x80, CHR 0x83],
     [CHR 0xE2, CHR 0x80, CHR 0x84], [CHR 0xE2, CHR 0x80, CHR 0x85],
     [CHR 0xE2, CHR 0x80, CHR 0x86], [CHR 0xE2, CHR 0x80, CHR 0x87],
     [CHR 0xE2, CHR 0x80, CHR 0x88], [CHR 0xE2, CHR 0x80, CHR 0x89],
     [CHR 0xE2, CHR 0x80, CHR 0x8A], [CHR 0xE2, CHR 0x80, CHR 0xA8],
     [CHR 0xE2, CHR 0x80, CHR 0xA9], [CHR 0xE2, CHR 0x80, CHR 0xAF],
     [CHR 0xE2, CHR 0x81, CHR 0x9F], [CHR 0xE3, CHR 0x80, CHR 0x80],
     [CHR 0xEF, CHR 0xBB, CHR 0xBF]]"

text \<open>
  \<open>strip_one ws s\<close> removes one character of the list \<open>ws\<close> from the head of \<open>s\<close>;
  \<open>strip_all\<close> removes as many as there are. The count of steps left is the length of
  the text, which bounds the number of characters.
\<close>

definition strip_one :: "string list \<Rightarrow> string \<Rightarrow> string option" where
  "strip_one ws s =
     (case List.find (\<lambda>w. w \<noteq> [] \<and> startsWith s w) ws of
        None \<Rightarrow> None
      | Some w \<Rightarrow> Some (drop (length w) s))"

function strip_all :: "string list \<Rightarrow> string \<Rightarrow> string" where
  "strip_all ws s = (case strip_one ws s of None \<Rightarrow> s | Some s' \<Rightarrow> strip_all ws s')"
  by pat_completeness auto
termination
proof (relation "measure (\<lambda>(ws, s). length s)")
  fix ws :: "string list" and s s' :: string
  assume "strip_one ws s = Some s'"
  then obtain w where "List.find (\<lambda>w. w \<noteq> [] \<and> startsWith s w) ws = Some w" "s' = drop (length w) s"
    by (auto simp: strip_one_def split: option.splits)
  moreover from this have "w \<noteq> []" "startsWith s w"
    by (auto simp: find_Some_iff)
  moreover have "startsWith a b \<Longrightarrow> length b \<le> length a" for a b :: string
    by (induction a b rule: startsWith.induct) auto
  ultimately show "((ws, s'), (ws, s)) \<in> measure (\<lambda>(ws, s). length s)"
    by (cases s; cases w) auto
qed simp

declare strip_all.simps [simp del]

text \<open>\<^verbatim>\<open>String.prototype.trim\<close>: white space off the head, then off the tail.\<close>

definition trim :: "string \<Rightarrow> string" where
  "trim s = rev (strip_all (map rev white_space) (rev (strip_all white_space s)))"

subsection \<open>The regular expression\<close>

text \<open>
  The pattern is three backticks and \<open>json\<close>, then \<^verbatim>\<open>\s*\<close>, then the group
  \<^verbatim>\<open>([\s\S]*?)\<close>, then three backticks. The matcher tries the start positions from left
  to right. At a position where the opening fence stands it lets \<^verbatim>\<open>\s*\<close> take the
  longest run of white space first and gives characters back one at a time while the rest
  fails; the group, being lazy, ends at the first closing fence.
\<close>

definition fence :: string where
  "fence = ''```''"

fun until_fence :: "string \<Rightarrow> string option" where
  "until_fence [] = None"
| "until_fence (c # cs) =
     (if startsWith (c # cs) fence then Some []
      else map_option ((#) c) (until_fence cs))"

text \<open>The rests of \<open>s\<close> after its white-space characters, the longest run first.\<close>

function space_runs :: "string \<Rightarrow> string list" where
  "space_runs s =
     (case strip_one white_space s of None \<Rightarrow> [s] | Some s' \<Rightarrow> space_runs s' @ [s])"
  by pat_completeness auto
termination
proof (relation "measure length")
  fix s s' :: string
  assume "strip_one white_space s = Some s'"
  then obtain w where "List.find (\<lambda>w. w \<noteq> [] \<and> startsWith s w) white_space = Some w"
      "s' = drop (length w) s"
    by (auto simp: strip_one_def split: option.splits)
  moreover from this have "w \<noteq> []" "startsWith s w"
    by (auto simp: find_Some_iff)
  moreover have "startsWith a b \<Longrightarrow> length b \<le> length a" for a b :: string
    by (induction a b rule: startsWith.induct) auto
  ultimately show "(s', s) \<in> measure length"
    by (cases s; cases w) auto
qed simp

declare space_runs.simps [simp del]

fun first_match :: "string list \<Rightarrow> string option" where
  "first_match [] = None"
| "first_match (r # rs) = (case until_fence r of Some g \<Rightarrow> Some g | None \<Rightarrow> first_match rs)"

definition match_at :: "string \<Rightarrow> string option" where
  "match_at s =
     (if startsWith s (fence @ ''json'') then first_match (space_runs (drop 7 s)) else None)"

fun regex_match :: "string \<Rightarrow> string option" where
  "regex_match [] = match_at []"
| "regex_match (c # cs) =
     (case match_at (c # cs) of Some g \<Rightarrow> Some g | None \<Rightarrow> regex_match cs)"

subsection \<open>The function\<close>

text \<open>
  The body of the \<^verbatim>\<open>try\<close> block gives the value returned from inside it, \<open>Inr None\<close>
  when it falls through, and the exception otherwise. \<open>extractFacts\<close> catches every
  exception and returns \<^verbatim>\<open>null\<close>, here \<open>None\<close>.
\<close>

definition try_block :: "(string \<Rightarrow> json option) \<Rightarrow> string \<Rightarrow> error + json option" where
  "try_block JSON_parse group1 =
     (case JSON_parse (trim group1) of
        None \<Rightarrow> Inl SyntaxError
      | Some parsed \<Rightarrow>
          (case get_member parsed ''extractionComplete'' of
             Inl e \<Rightarrow> Inl e
           | Inr ready \<Rightarrow>
               if js_truthy ready then
                 (case get_member parsed ''facts'' of
                    Inl e \<Rightarrow> Inl e
                  | Inr facts \<Rightarrow> if js_truthy facts then Inr facts else Inr None)
               else Inr None))"

definition extractFacts :: "(string \<Rightarrow> json option) \<Rightarrow> string \<Rightarrow> error + json option" where
  "extractFacts JSON_parse responseText =
     (case regex_match responseText of
        None \<Rightarrow> Inr None
      | Some group1 \<Rightarrow>
          (case try_block JSON_parse group1 of
             Inr (Some facts) \<Rightarrow> Inr (Some facts)
           | Inr None \<Rightarrow> Inr None
           | Inl e \<Rightarrow> Inr None))"

subsection \<open>The claim's description of the result\<close>

text \<open>
  In the words of the claim: the first fenced block is the text between the first
  occurrence of the opening fence with \<open>json\<close> and the next fence after it; the result is
  the \<open>facts\<close> member exactly when that block parses to an object whose members
  \<open>extractionComplete\<close> and \<open>facts\<close> are truthy, and \<^verbatim>\<open>null\<close> in every other case.
\<close>

fun after_first :: "string \<Rightarrow> string \<Rightarrow> string option" where
  "after_first pat [] = (if pat = [] then Some [] else None)"
| "after_first pat (c # cs) =
     (if startsWith (c # cs) pat then Some (drop (length pat) (c # cs)) else after_first pat cs)"

definition first_json_block :: "string \<Rightarrow> string option" where
  "first_json_block s =
     (case after_first (fence @ ''json'') s of None \<Rightarrow> None | Some rest \<Rightarrow> until_fence rest)"

definition extractFacts_spec :: "(string \<Rightarrow> json option) \<Rightarrow> string \<Rightarrow> json option" where
  "extractFacts_spec JSON_parse s =
     (case first_json_block s of
        None \<Rightarrow> None
      | Some block \<Rightarrow>
          (case JSON_parse (trim block) of
             Some (JObject ms) \<Rightarrow>
               if js_truthy (map_of ms ''extractionComplete'') \<and> js_truthy (map_of ms ''facts'')
               then map_of ms ''facts'' else None
           | _ \<Rightarrow> None))"

section \<open>Properties of the resolver\<close>

lemma PATHWAYS_get_own:
  "PATHWAYS_get ''dwp_decision'' = PathwayRef 6"
  "PATHWAYS_get ''dwp_service'' = PathwayRef 7"
  "PATHWAYS_get ''police'' = PathwayRef 4"
  "PATHWAYS_get ''police_scotland'' = PathwayRef 13"
  "PATHWAYS_get ''other_gov'' = PathwayRef 25"
  by (simp_all add: PATHWAYS_get_def PATHWAYS_def)

lemma deref_catalog:
  "deref initial_store (PathwayRef 6) = Some dwp_decision"
  "deref initial_store (PathwayRef 7) = Some dwp_service"
  "deref initial_store (PathwayRef 4) = Some police"
  "deref initial_store (PathwayRef 13) = Some police_scotland"
  "deref initial_store (PathwayRef 25) = Some other_gov"
  by (simp_all add: deref_def initial_store_def catalog_def)

text \<open>
  C6: for every nation, present or absent, \<open>getPathway\<close> on \<open>dwp\<close> with complaint type
  \<open>decision\<close> gives the catalogue entry \<open>dwp_decision\<close>, and with complaint type \<open>service\<close>
  the entry \<open>dwp_service\<close>; the nation plays no part.
\<close>

theorem getPathway_dwp_ignores_nation:
  "getPathway ''dwp'' (Some ''decision'') n = PATHWAYS_get ''dwp_decision'' \<and>
   deref initial_store (getPathway ''dwp'' (Some ''decision'') n) = Some dwp_decision \<and>
   getPathway ''dwp'' (Some ''service'') n = PATHWAYS_get ''dwp_service'' \<and>
   deref initial_store (getPathway ''dwp'' (Some ''service'') n) = Some dwp_service"
  by (simp add: getPathway_def str_truthy_def PATHWAYS_get_own deref_catalog)

text \<open>
  C7: \<open>getPathway\<close> on \<open>police\<close> with no complaint type gives the entry \<open>police_scotland\<close>
  for Scotland and the base entry \<open>police\<close> for England.
\<close>

theorem getPathway_police_scotland_england:
  "getPathway ''police'' None (Some ''Scotland'') = PATHWAYS_get ''police_scotland'' \<and>
   deref initial_store (getPathway ''police'' None (Some ''Scotland'')) = Some police_scotland \<and>
   getPathway ''police'' None (Some ''England'') = PATHWAYS_get ''police'' \<and>
   deref initial_store (getPathway ''police'' None (Some ''England'')) = Some police"
  by (simp add: getPathway_def nationPathway_def nationKeys_def str_truthy_def truthy_def
      PATHWAYS_get_own deref_catalog)

text \<open>
  What a read of \<^verbatim>\<open>PATHWAYS\<close> can give, and that a key with a nation suffix never names
  an inherited member.
\<close>

lemma PATHWAYS_get_cases:
  "(\<exists>r. (key, r) \<in> set PATHWAYS \<and> PATHWAYS_get key = PathwayRef r) \<or>
   (key \<in> set Object_prototype \<and> PATHWAYS_get key = Inherited key) \<or>
   (key \<notin> set Object_prototype \<and> map_of PATHWAYS key = None \<and> PATHWAYS_get key = Undefined)"
proof (cases "map_of PATHWAYS key")
  case None
  then show ?thesis by (simp add: PATHWAYS_get_def)
next
  case (Some r)
  then have "(key, r) \<in> set PATHWAYS" by (rule map_of_SomeD)
  then show ?thesis using Some by (simp add: PATHWAYS_get_def)
qed

lemma suffixed_key_not_inherited:
  assumes "k \<in> {''scotland'', ''wales'', ''ni''}"
  shows "b @ ''_'' @ k \<notin> set Object_prototype"
proof
  assume "b @ ''_'' @ k \<in> set Object_prototype"
  then obtain t where t: "t \<in> set Object_prototype" "b @ ''_'' @ k = t" by blast
  then have "last t = last k" using assms by auto
  then show False using t(1) assms by (auto simp: Object_prototype_def)
qed

lemma nationPathway_cases:
  "nationPathway b n = Undefined \<or> (\<exists>key r. (key, r) \<in> set PATHWAYS \<and> nationPathway b n = PathwayRef r)"
proof (cases "nationPathway b n = Undefined")
  case False
  then obtain m k where k: "map_of nationKeys m = Some k" "nationPathway b n = PATHWAYS_get (b @ ''_'' @ k)"
    by (auto simp: nationPathway_def split: option.splits if_splits)
  from k(1) have "k \<in> {''scotland'', ''wales'', ''ni''}"
    by (auto simp: nationKeys_def split: if_splits)
  then have "b @ ''_'' @ k \<notin> set Object_prototype" by (rule suffixed_key_not_inherited)
  then show ?thesis using PATHWAYS_get_cases [of "b @ ''_'' @ k"] k(2) False by auto
qed simp

text \<open>
  Away from the inherited names the resolver always gives a catalogue entry, and a body
  type without an entry of its own or for the nation gives the fallback \<open>other_gov\<close>.
\<close>

lemma getPathway_gives_template:
  assumes "b \<notin> set Object_prototype"
  shows "\<exists>key r. (key, r) \<in> set PATHWAYS \<and> getPathway b c n = PathwayRef r"
proof -
  have own: "(''dwp_decision'', 6) \<in> set PATHWAYS" "(''dwp_service'', 7) \<in> set PATHWAYS"
    "(''other_gov'', 25) \<in> set PATHWAYS"
    by (simp_all add: PATHWAYS_def)
  show ?thesis
    using assms own PATHWAYS_get_cases [of b] nationPathway_cases [of b n]
    unfolding getPathway_def
    by (auto simp: PATHWAYS_get_own truthy_def)
qed

lemma getPathway_fallback:
  assumes "b \<notin> set Object_prototype" and "map_of PATHWAYS b = None"
    and "nationPathway b n = Undefined"
  shows "getPathway b c n = PATHWAYS_get ''other_gov''"
proof -
  have "b \<noteq> ''dwp''" using assms(2) by (auto simp: PATHWAYS_def)
  moreover have "PATHWAYS_get b = Undefined"
    using assms(1,2) by (simp add: PATHWAYS_get_def)
  ultimately show ?thesis using assms(3) by (simp add: getPathway_def truthy_def)
qed

text \<open>
  C8: \<open>getPathway\<close> is claimed to give a pathway template for every body type, the
  fallback \<open>other_gov\<close> when the catalogue has no entry. For the body type
  \<open>constructor\<close>, which has no entry, the read \<^verbatim>\<open>PATHWAYS[bodyType]\<close> finds the member
  inherited from the prototype, which is truthy, and the resolver returns it: the result
  is no pathway and is not the fallback.
\<close>

theorem getPathway_inherited_member:
  "getPathway ''constructor'' None None = Inherited ''constructor'' \<and>
   deref initial_store (getPathway ''constructor'' None None) = None \<and>
   map_of PATHWAYS ''constructor'' = None \<and>
   getPathway ''constructor'' None None \<noteq> PATHWAYS_get ''other_gov''"
  by (simp add: getPathway_def nationPathway_def str_truthy_def truthy_def
      PATHWAYS_get_def PATHWAYS_def Object_prototype_def deref_def)

section \<open>Properties of progress inference\<close>

subsection \<open>The loop and the markers\<close>

lemma find_step_none:
  "\<not> ombudsman_class lower \<Longrightarrow> \<not> formal_class lower \<Longrightarrow> \<not> informal_class lower \<Longrightarrow>
   find_step lower ss i = (ss, False)"
proof (induction lower ss i rule: find_step.induct)
  case (1 lower ss i)
  then show ?case by (subst find_step.simps) simp
qed

lemma find_step_0:
  "ss \<noteq> [] \<Longrightarrow> find_step lower ss 0 =
     (if ombudsman_class lower then (set_current (length ss - 1) ss, True)
      else if formal_class lower then (if 1 < length ss then set_current 1 ss else set_current 0 ss, True)
      else if informal_class lower then (if 1 < length ss then set_current 1 ss else set_current 0 ss, True)
      else (ss, False))"
  by (subst find_step.simps) (simp add: find_step_none)

lemma filter_update_one:
  assumes "i < length xs" "\<forall>x \<in> set xs. \<not> P x" "P y"
  shows "filter P (xs[i := y]) = [y]"
proof -
  have "xs[i := y] = take i xs @ y # drop (Suc i) xs"
    using assms(1) by (simp add: upd_conv_take_nth_drop)
  moreover have "filter P (take i xs) = []" "filter P (drop (Suc i) xs) = []"
    using assms(2) by (auto simp: filter_empty_conv dest: in_set_takeD in_set_dropD)
  ultimately show ?thesis using assms(3) by simp
qed

lemma set_current_count:
  "i < length ss \<Longrightarrow> length (filter (\<lambda>s. current s = Some True) (set_current i (cleared ss))) = 1"
  unfolding set_current_def cleared_def
  by (subst filter_update_one) auto

lemma length_set_current [simp]: "length (set_current i ss) = length ss"
  by (simp add: set_current_def)

lemma adjust_steps_shape:
  assumes "ss0 \<noteq> []"
  shows "\<exists>i < length ss0. adjust_steps lower ss0 = Inr (set_current i (cleared ss0)) \<and>
           (ombudsman_class lower \<longrightarrow> i = length ss0 - 1)"
proof -
  let ?c = "cleared ss0"
  have ne: "?c \<noteq> []" and len: "length ?c = length ss0" using assms by (simp_all add: cleared_def)
  have pos: "0 < length ss0" using assms by simp
  show ?thesis
  proof (cases "ombudsman_class lower \<or> formal_class lower \<or> informal_class lower")
    case True
    let ?i = "if ombudsman_class lower then length ss0 - 1 else if 1 < length ss0 then 1 else 0"
    have "find_step lower ?c 0 = (set_current ?i ?c, True)"
      using True by (auto simp: find_step_0 [OF ne] len)
    then have "adjust_steps lower ss0 = Inr (set_current ?i ?c)"
      by (simp add: adjust_steps_def)
    moreover have "?i < length ss0" using pos by simp
    ultimately show ?thesis by (intro exI [of _ ?i]) simp
  next
    case False
    then have "find_step lower ?c 0 = (?c, False)" by (simp add: find_step_none)
    then have "adjust_steps lower ss0 = Inr (set_current 0 ?c)"
      using ne by (simp add: adjust_steps_def)
    then show ?thesis using pos False by (intro exI [of _ 0]) simp
  qed
qed

lemma adjust_steps_total:
  assumes "ss0 \<noteq> []"
  shows "\<exists>ss. adjust_steps lower ss0 = Inr ss \<and> length ss = length ss0 \<and>
     length (filter (\<lambda>s. current s = Some True) ss) = 1"
proof -
  let ?c = "cleared ss0"
  have ne: "?c \<noteq> []" and len: "length ?c = length ss0" using assms by (simp_all add: cleared_def)
  have pos: "0 < length ss0" using assms by simp
  obtain i where i: "i < length ss0"
    and r: "adjust_steps lower ss0 = Inr (set_current i ?c)"
  proof (cases "ombudsman_class lower \<or> formal_class lower \<or> informal_class lower")
    case True
    let ?i = "if ombudsman_class lower then length ss0 - 1 else if 1 < length ss0 then 1 else 0"
    have "find_step lower ?c 0 = (set_current ?i ?c, True)"
      using True by (auto simp: find_step_0 [OF ne] len)
    then have "adjust_steps lower ss0 = Inr (set_current ?i ?c)"
      by (simp add: adjust_steps_def)
    moreover have "?i < length ss0" using pos by simp
    ultimately show ?thesis using that by blast
  next
    case False
    then have "find_step lower ?c 0 = (?c, False)" by (simp add: find_step_none)
    then have "adjust_steps lower ss0 = Inr (set_current 0 ?c)"
      using ne by (simp add: adjust_steps_def)
    then show ?thesis using that pos by blast
  qed
  show ?thesis using i r by (simp add: set_current_count len)
qed

lemma erase_set_current:
  "i < length ss \<Longrightarrow>
   map (\<lambda>s. s\<lparr>current := None\<rparr>) (set_current i (cleared ss)) = map (\<lambda>s. s\<lparr>current := None\<rparr>) ss"
  by (simp add: list_eq_iff_nth_eq set_current_def cleared_def nth_list_update)

lemma map_current_set_current:
  "map current (set_current i ss) = (map current ss)[i := Some True]"
  by (simp add: set_current_def map_update)

lemma map_current_cleared:
  "map current (cleared ss) = replicate (length ss) (Some False)"
  by (induction ss) (simp_all add: cleared_def)

lemma replicate_update_last:
  "(replicate (Suc m) a)[m := b] = replicate m a @ [b]"
proof -
  have "replicate (Suc m) a = replicate m a @ [a]"
    by (simp add: replicate_append_same)
  then show ?thesis
    by (simp only: list_update_length [of "replicate m a" a "[]" b, simplified])
qed

lemma current_set_last:
  assumes "ss \<noteq> []"
  shows "map current (set_current (length ss - 1) (cleared ss)) =
     replicate (length ss - 1) (Some False) @ [Some True]"
proof -
  obtain m where m: "length ss = Suc m" using assms by (cases ss) auto
  have "map current (set_current (length ss - 1) (cleared ss)) =
      (replicate (Suc m) (Some False))[m := Some True]"
    by (simp only: map_current_set_current map_current_cleared m diff_Suc_1)
  then show ?thesis
    by (simp only: replicate_update_last m diff_Suc_1)
qed

lemma early_not_class:
  "\<not> ombudsman_class []" "\<not> ombudsman_class ''none''" "\<not> ombudsman_class ''no''"
  by (simp_all add: ombudsman_class_def)

lemma class_not_early:
  assumes "ombudsman_class (toLowerCase txt0)"
  shows "txt0 \<noteq> []" "toLowerCase txt0 \<noteq> ''none''" "toLowerCase txt0 \<noteq> ''no''"
  using assms early_not_class by auto

text \<open>The Kelvin sign lower-cases to k, so a text that spells SPOKE with it is in the informal class.\<close>

lemma informal_class_kelvin:
  "toLowerCase (''I SPO'' @ [CHR 0xE2, CHR 0x84, CHR 0xAA] @ ''E TO THEM'') = ''i spoke to them'' \<and>
   informal_class (toLowerCase (''I SPO'' @ [CHR 0xE2, CHR 0x84, CHR 0xAA] @ ''E TO THEM''))"
  by (simp add: informal_class_def lower_char_def lower_table_def)

subsection \<open>The catalogue is well formed\<close>

lemma catalog_wellformed:
  "(r, p) \<in> set catalog \<Longrightarrow> steps p \<noteq> [] \<and> current_count p = 1"
  unfolding catalog_def current_count_def
  by (auto simp: nhs_trust_def gp_def social_care_def council_def police_def school_def
      dwp_decision_def dwp_service_def dwp_def hmrc_def nhs_trust_scotland_def gp_scotland_def
      council_scotland_def police_scotland_def social_care_scotland_def nhs_trust_wales_def
      gp_wales_def council_wales_def police_wales_def social_care_wales_def nhs_trust_ni_def
      gp_ni_def council_ni_def police_ni_def social_care_ni_def other_gov_def)

lemma PATHWAYS_catalog:
  "(key, r) \<in> set PATHWAYS \<Longrightarrow> \<exists>p. (r, p) \<in> set catalog \<and> objs initial_store r = Some p"
  unfolding PATHWAYS_def catalog_def initial_store_def
  by auto

subsection \<open>The two paths through \<open>adjustForStepsTaken\<close>\<close>

lemma adjustForStepsTaken_early:
  "taken = None \<or> taken = Some [] \<or>
   map_option toLowerCase taken = Some ''none'' \<or> map_option toLowerCase taken = Some ''no'' \<Longrightarrow>
   adjustForStepsTaken \<sigma> v taken = Inr (v, \<sigma>)"
  by (auto simp: adjustForStepsTaken_def split: option.splits)

lemma adjustForStepsTaken_clone:
  assumes "objs \<sigma> r = Some p" and "steps p \<noteq> []"
    and "text \<noteq> []" and "toLowerCase text \<noteq> ''none''" and "toLowerCase text \<noteq> ''no''"
  shows "\<exists>ss. adjust_steps (toLowerCase text) (steps p) = Inr ss \<and>
     adjustForStepsTaken \<sigma> (PathwayRef r) (Some text) =
       Inr (PathwayRef (fresh \<sigma>),
            \<lparr>objs = (objs \<sigma>)(fresh \<sigma> \<mapsto> p\<lparr>steps := ss\<rparr>), fresh = Suc (fresh \<sigma>)\<rparr>)"
proof -
  obtain ss where ss: "adjust_steps (toLowerCase text) (steps p) = Inr ss"
    using adjust_steps_total [OF assms(2)] by blast
  show ?thesis
    using assms ss by (simp add: adjustForStepsTaken_def JSON_clone_def)
qed

text \<open>
  C2: for every entry of the catalogue and every steps-taken text (absent, empty,
  \<open>none\<close> or \<open>no\<close>, without any keyword, or with keywords of several classes)
  \<open>adjustForStepsTaken\<close> returns a pathway in which exactly one step has \<open>current\<close> equal
  to \<^verbatim>\<open>true\<close>.
\<close>

theorem adjustForStepsTaken_one_current:
  assumes "(key, r) \<in> set PATHWAYS"
  shows "\<exists>v \<sigma>' p. adjustForStepsTaken initial_store (PathwayRef r) taken = Inr (v, \<sigma>') \<and>
           deref \<sigma>' v = Some p \<and> current_count p = 1"
proof -
  obtain p0 where p0: "(r, p0) \<in> set catalog" "objs initial_store r = Some p0"
    using PATHWAYS_catalog [OF assms] by blast
  have wf: "steps p0 \<noteq> []" "current_count p0 = 1"
    using catalog_wellformed [OF p0(1)] by simp_all
  show ?thesis
  proof (cases "taken = None \<or> taken = Some [] \<or>
      map_option toLowerCase taken = Some ''none'' \<or> map_option toLowerCase taken = Some ''no''")
    case True
    then have "adjustForStepsTaken initial_store (PathwayRef r) taken = Inr (PathwayRef r, initial_store)"
      by (rule adjustForStepsTaken_early)
    then show ?thesis using p0(2) wf(2) by (simp add: deref_def)
  next
    case False
    then obtain txt0 where t: "taken = Some txt0" "txt0 \<noteq> []"
        "toLowerCase txt0 \<noteq> ''none''" "toLowerCase txt0 \<noteq> ''no''"
      by (cases taken) auto
    obtain ss where ss: "adjust_steps (toLowerCase txt0) (steps p0) = Inr ss"
      and r: "adjustForStepsTaken initial_store (PathwayRef r) (Some txt0) =
         Inr (PathwayRef (fresh initial_store),
            \<lparr>objs = (objs initial_store)(fresh initial_store \<mapsto> p0\<lparr>steps := ss\<rparr>),
             fresh = Suc (fresh initial_store)\<rparr>)"
      using adjustForStepsTaken_clone [OF p0(2) wf(1) t(2,3,4)] by blast
    have "length (filter (\<lambda>s. current s = Some True) ss) = 1"
      using adjust_steps_total [OF wf(1), of "toLowerCase txt0"] ss by simp
    then show ?thesis using r t(1) by (simp add: deref_def current_count_def)
  qed
qed

theorem adjustForStepsTaken_one_current_witness:
  "(''police_ni'', 23) \<in> set PATHWAYS \<and>
   (\<exists>v \<sigma>' p. adjustForStepsTaken initial_store (PathwayRef 23)
        (Some ''I spoke to the Ombudsman after my formal complaint'') = Inr (v, \<sigma>') \<and>
      deref \<sigma>' v = Some p \<and> current_count p = 1)"
proof -
  have h: "(''police_ni'', 23) \<in> set PATHWAYS" by (simp add: PATHWAYS_def)
  show ?thesis using h adjustForStepsTaken_one_current [OF h] by blast
qed

text \<open>
  C9: for a pathway with at least two steps and a text whose lower-cased form contains
  one of \<open>ombudsman\<close>, \<open>phso\<close>, \<open>lgsco\<close>, \<open>iopc\<close>, whatever other keywords it contains,
  \<open>adjustForStepsTaken\<close> marks the last step as current and no other.
\<close>

theorem adjustForStepsTaken_ombudsman_last:
  assumes "objs \<sigma> r = Some p" and "2 \<le> length (steps p)"
    and "ombudsman_class (toLowerCase txt0)"
  shows "\<exists>a \<sigma>' p'. adjustForStepsTaken \<sigma> (PathwayRef r) (Some txt0) = Inr (PathwayRef a, \<sigma>') \<and>
           objs \<sigma>' a = Some p' \<and>
           map current (steps p') = replicate (length (steps p) - 1) (Some False) @ [Some True]"
proof -
  have ne: "steps p \<noteq> []" using assms(2) by auto
  obtain ss where ss: "adjust_steps (toLowerCase txt0) (steps p) = Inr ss"
    and r: "adjustForStepsTaken \<sigma> (PathwayRef r) (Some txt0) =
       Inr (PathwayRef (fresh \<sigma>),
            \<lparr>objs = (objs \<sigma>)(fresh \<sigma> \<mapsto> p\<lparr>steps := ss\<rparr>), fresh = Suc (fresh \<sigma>)\<rparr>)"
    using adjustForStepsTaken_clone [OF assms(1) ne class_not_early [OF assms(3)]] by blast
  have "ss = set_current (length (steps p) - 1) (cleared (steps p))"
    using adjust_steps_shape [OF ne, of "toLowerCase txt0"] assms(3) ss by auto
  then have "map current ss = replicate (length (steps p) - 1) (Some False) @ [Some True]"
    using current_set_last [OF ne] by simp
  then show ?thesis using r by simp
qed

theorem adjustForStepsTaken_ombudsman_last_witness:
  "objs initial_store 0 = Some nhs_trust \<and> 2 \<le> length (steps nhs_trust) \<and>
   ombudsman_class (toLowerCase ''I called PALS, made a formal complaint and went to the PHSO'') \<and>
   (\<exists>a \<sigma>' p'. adjustForStepsTaken initial_store (PathwayRef 0)
        (Some ''I called PALS, made a formal complaint and went to the PHSO'') = Inr (PathwayRef a, \<sigma>') \<and>
      objs \<sigma>' a = Some p' \<and>
      map current (steps p') = replicate (length (steps nhs_trust) - 1) (Some False) @ [Some True])"
proof -
  have h1: "objs initial_store 0 = Some nhs_trust"
    by (simp add: initial_store_def catalog_def)
  have h2: "2 \<le> length (steps nhs_trust)"
    by (simp add: nhs_trust_def)
  have h3: "ombudsman_class (toLowerCase ''I called PALS, made a formal complaint and went to the PHSO'')"
    by (simp add: ombudsman_class_def lower_char_def lower_table_def)
  show ?thesis
    using h1 h2 h3 adjustForStepsTaken_ombudsman_last [OF h1 h2 h3] by blast
qed

text \<open>
  C4, as claimed: \<open>adjustForStepsTaken\<close> never returns the shared catalogue object. It
  does for the empty text and for \<open>None\<close> in any letter case: the value returned is the
  reference of the catalogue entry itself and nothing is allocated.
\<close>

theorem adjustForStepsTaken_returns_catalog_object:
  "map_of PATHWAYS ''nhs_trust'' = Some 0 \<and>
   adjustForStepsTaken initial_store (PathwayRef 0) (Some []) = Inr (PathwayRef 0, initial_store) \<and>
   adjustForStepsTaken initial_store (PathwayRef 0) (Some ''None'') = Inr (PathwayRef 0, initial_store)"
  by (simp add: PATHWAYS_def adjustForStepsTaken_def lower_char_def lower_table_def)

text \<open>
  C4, amended: for an absent or empty text and for \<open>none\<close> or \<open>no\<close> in any letter case
  \<open>adjustForStepsTaken\<close> returns the template object itself and leaves the store as it
  is; for every other text it returns a new object at a reference that was free, equal to
  the template up to the \<open>current\<close> markers, and no object that existed is changed.
\<close>

theorem adjustForStepsTaken_copy_unless_none:
  assumes "objs \<sigma> r = Some p" and "steps p \<noteq> []" and "objs \<sigma> (fresh \<sigma>) = None"
  shows "if taken = None \<or> taken = Some [] \<or> map_option toLowerCase taken = Some ''none'' \<or>
            map_option toLowerCase taken = Some ''no''
         then adjustForStepsTaken \<sigma> (PathwayRef r) taken = Inr (PathwayRef r, \<sigma>)
         else \<exists>a \<sigma>' ss. adjustForStepsTaken \<sigma> (PathwayRef r) taken = Inr (PathwayRef a, \<sigma>') \<and>
                a \<noteq> r \<and> objs \<sigma> a = None \<and>
                objs \<sigma>' = (objs \<sigma>)(a \<mapsto> p\<lparr>steps := ss\<rparr>) \<and>
                map (\<lambda>s. s\<lparr>current := None\<rparr>) ss = map (\<lambda>s. s\<lparr>current := None\<rparr>) (steps p)"
proof (cases "taken = None \<or> taken = Some [] \<or> map_option toLowerCase taken = Some ''none'' \<or>
            map_option toLowerCase taken = Some ''no''")
  case True
  then show ?thesis using adjustForStepsTaken_early [OF True] by simp
next
  case False
  then obtain txt0 where t: "taken = Some txt0" "txt0 \<noteq> []"
      "toLowerCase txt0 \<noteq> ''none''" "toLowerCase txt0 \<noteq> ''no''"
    by (cases taken) auto
  obtain ss where ss: "adjust_steps (toLowerCase txt0) (steps p) = Inr ss"
    and r: "adjustForStepsTaken \<sigma> (PathwayRef r) (Some txt0) =
       Inr (PathwayRef (fresh \<sigma>),
            \<lparr>objs = (objs \<sigma>)(fresh \<sigma> \<mapsto> p\<lparr>steps := ss\<rparr>), fresh = Suc (fresh \<sigma>)\<rparr>)"
    using adjustForStepsTaken_clone [OF assms(1,2) t(2,3,4)] by blast
  have neq: "fresh \<sigma> \<noteq> r" using assms(1,3) by auto
  have "map (\<lambda>s. s\<lparr>current := None\<rparr>) ss = map (\<lambda>s. s\<lparr>current := None\<rparr>) (steps p)"
    using adjust_steps_shape [OF assms(2), of "toLowerCase txt0"] ss erase_set_current by auto
  then show ?thesis using False r t(1) neq assms(3) by auto
qed

theorem adjustForStepsTaken_copy_unless_none_witness:
  "objs initial_store 4 = Some police \<and> steps police \<noteq> [] \<and>
   objs initial_store (fresh initial_store) = None \<and>
   (\<exists>a \<sigma>' ss. adjustForStepsTaken initial_store (PathwayRef 4) (Some ''I wrote to them'') =
        Inr (PathwayRef a, \<sigma>') \<and>
      a \<noteq> 4 \<and> objs initial_store a = None \<and>
      objs \<sigma>' = (objs initial_store)(a \<mapsto> police\<lparr>steps := ss\<rparr>) \<and>
      map (\<lambda>s. s\<lparr>current := None\<rparr>) ss = map (\<lambda>s. s\<lparr>current := None\<rparr>) (steps police))"
proof -
  have h1: "objs initial_store 4 = Some police"
    by (simp add: initial_store_def catalog_def)
  have h2: "steps police \<noteq> []"
    by (simp add: police_def)
  have h3: "objs initial_store (fresh initial_store) = None"
    by (simp add: initial_store_def catalog_def)
  have e: "\<not> (Some ''I wrote to them'' = None \<or> Some ''I wrote to them'' = Some [] \<or>
      map_option toLowerCase (Some ''I wrote to them'') = Some ''none'' \<or>
      map_option toLowerCase (Some ''I wrote to them'') = Some ''no'')"
    by (simp add: lower_char_def lower_table_def)
  show ?thesis
    using h1 h2 h3 e adjustForStepsTaken_copy_unless_none [OF h1 h2 h3, of "Some ''I wrote to them''"]
    by (simp only: if_False) blast
qed

section \<open>Properties of the controller\<close>

text \<open>
  C1: the transition from the summary to the pathway is claimed to be refused for a facts
  record whose safeguarding concern is \<open>crime\<close>. \<open>handleConfirmSummary\<close> does not read
  the concern: at such a record it resolves the police pathway and stores it as the
  current pathway.
\<close>

theorem handleConfirmSummary_crime_resolves_pathway:
  "handleConfirmSummary
     \<lparr>extractedFacts = Some \<lparr>bodyType = ''police'', complaintType = Some ''general'',
        nation = Some ''England'', stepsTaken = Some ''none'', safeguardingConcern = Some ''crime''\<rparr>,
      currentPathway = None, heap = initial_store\<rparr> =
   Inr \<lparr>extractedFacts = Some \<lparr>bodyType = ''police'', complaintType = Some ''general'',
        nation = Some ''England'', stepsTaken = Some ''none'', safeguardingConcern = Some ''crime''\<rparr>,
      currentPathway = Some (PathwayRef 4), heap = initial_store\<rparr> \<and>
   deref initial_store (PathwayRef 4) = Some police"
  by (simp add: handleConfirmSummary_def getPathway_def nationPathway_def str_truthy_def truthy_def
      PATHWAYS_get_def PATHWAYS_def adjustForStepsTaken_def lower_char_def lower_table_def
      showPathwayCard_def deref_def initial_store_def catalog_def)

text \<open>The concern is not read at all: the pathway stored is the same for every value of it.\<close>

lemma handleConfirmSummary_concern_unread:
  "map_sum id currentPathway
     (handleConfirmSummary (st\<lparr>extractedFacts := Some (facts\<lparr>safeguardingConcern := c\<rparr>)\<rparr>)) =
   map_sum id currentPathway
     (handleConfirmSummary (st\<lparr>extractedFacts := Some facts\<rparr>))"
  by (simp add: handleConfirmSummary_def split: sum.splits prod.splits)


subsection \<open>The later revision\<close>

text \<open>
  In the later revision the click handler of the confirm button stops at the gate for
  every serious concern, and the gate then offers no way on. The check is the handler's:
  \<open>handleConfirmSummary2\<close> itself resolves a pathway for a crime record, and the handler
  of an earlier summary card, whose own facts carry no concern, reaches it after the
  session's facts have changed. The later revision does pass the nation on.
\<close>

lemma confirmSummaryClick_serious:
  assumes "safeguardingConcern facts = Some c" and "c \<in> set SERIOUS_CONCERNS"
  shows "confirmSummaryClick facts st = Inr ([GoHome], st)"
  using assms by (auto simp: confirmSummaryClick_def showSafeguardingGate_def SERIOUS_CONCERNS_def)

lemma handleConfirmSummary2_unguarded:
  "handleConfirmSummary2
     \<lparr>extractedFacts = Some \<lparr>bodyType = ''police'', complaintType = Some ''general'',
        nation = Some ''England'', stepsTaken = Some ''none'', safeguardingConcern = Some ''crime''\<rparr>,
      currentPathway = None, heap = initial_store, resolvedCountry = None, sessionStatus = summary\<rparr> =
   Inr \<lparr>extractedFacts = Some \<lparr>bodyType = ''police'', complaintType = Some ''general'',
        nation = Some ''England'', stepsTaken = Some ''none'', safeguardingConcern = Some ''crime''\<rparr>,
      currentPathway = Some (PathwayRef 4), heap = initial_store, resolvedCountry = None,
      sessionStatus = pathway\<rparr>"
  by (simp add: handleConfirmSummary2_def getPathway_def nationPathway_def str_truthy_def truthy_def
      PATHWAYS_get_def PATHWAYS_def adjustForStepsTaken_def lower_char_def lower_table_def
      showPathwayCard_def deref_def initial_store_def catalog_def)

lemma confirmSummaryClick_earlier_card:
  "confirmSummaryClick
     \<lparr>bodyType = ''police'', complaintType = Some ''general'',
      nation = Some ''England'', stepsTaken = Some ''none'', safeguardingConcern = Some ''none''\<rparr>
     \<lparr>extractedFacts = Some \<lparr>bodyType = ''police'', complaintType = Some ''general'',
        nation = Some ''England'', stepsTaken = Some ''none'', safeguardingConcern = Some ''crime''\<rparr>,
      currentPathway = None, heap = initial_store, resolvedCountry = None, sessionStatus = summary\<rparr> =
   Inr ([], \<lparr>extractedFacts = Some \<lparr>bodyType = ''police'', complaintType = Some ''general'',
        nation = Some ''England'', stepsTaken = Some ''none'', safeguardingConcern = Some ''crime''\<rparr>,
      currentPathway = Some (PathwayRef 4), heap = initial_store, resolvedCountry = None,
      sessionStatus = pathway\<rparr>)"
  by (simp add: confirmSummaryClick_def handleConfirmSummary2_unguarded)

lemma handleConfirmSummary2_passes_nation:
  "handleConfirmSummary2
     \<lparr>extractedFacts = Some \<lparr>bodyType = ''police'', complaintType = Some ''general'',
        nation = Some ''Scotland'', stepsTaken = None, safeguardingConcern = Some ''none''\<rparr>,
      currentPathway = None, heap = initial_store, resolvedCountry = None, sessionStatus = summary\<rparr> =
   Inr \<lparr>extractedFacts = Some \<lparr>bodyType = ''police'', complaintType = Some ''general'',
        nation = Some ''Scotland'', stepsTaken = None, safeguardingConcern = Some ''none''\<rparr>,
      currentPathway = Some (PathwayRef 13), heap = initial_store, resolvedCountry = None,
      sessionStatus = pathway\<rparr>"
  by (simp add: handleConfirmSummary2_def getPathway_def nationPathway_def nationKeys_def
      str_truthy_def truthy_def PATHWAYS_get_def PATHWAYS_def adjustForStepsTaken_def
      showPathwayCard_def deref_def initial_store_def catalog_def)

section \<open>Properties of \<open>addWorkingDays\<close>\<close>

lemma loop_done:
  "\<not> added < days \<Longrightarrow> working_days_loop tza_utc tza_local days result added = Some (Inr result)"
  by (subst working_days_loop.simps) simp

lemma loop_count:
  "added < days \<Longrightarrow> setDateNext tza_utc tza_local result = Some result' \<Longrightarrow>
   getDay tza_utc result' \<noteq> 0 \<Longrightarrow> getDay tza_utc result' \<noteq> 6 \<Longrightarrow>
   toISODate result' \<notin> set UK_BANK_HOLIDAYS \<Longrightarrow>
   working_days_loop tza_utc tza_local days result added =
     working_days_loop tza_utc tza_local days result' (added + 1)"
  by (subst working_days_loop.simps) (simp add: Let_def)

lemma loop_skip:
  "added < days \<Longrightarrow> setDateNext tza_utc tza_local result = Some result' \<Longrightarrow>
   getDay tza_utc result' = 0 \<or> getDay tza_utc result' = 6 \<or>
   toISODate result' \<in> set UK_BANK_HOLIDAYS \<Longrightarrow>
   working_days_loop tza_utc tza_local days result added =
     working_days_loop tza_utc tza_local days result' added"
  by (subst working_days_loop.simps) (auto simp: Let_def)

lemma setDateNext_constant:
  "abs (t + msPerDay) \<le> maxTime \<Longrightarrow>
   setDateNext (\<lambda>_. offset) (\<lambda>_. offset) t = Some (t + msPerDay)"
  by (simp add: setDateNext_def Let_def)

lemma day_shift: "(t + k * msPerDay) div msPerDay = t div msPerDay + k"
  by (simp add: msPerDay_def)

lemma april_2025:
  "isoDate 20195 = ''2025-04-17''" "isoDate 20196 = ''2025-04-18''" "isoDate 20197 = ''2025-04-19''"
  "isoDate 20198 = ''2025-04-20''" "isoDate 20199 = ''2025-04-21''" "isoDate 20200 = ''2025-04-22''"
  "weekday 20196 = 5" "weekday 20197 = 6" "weekday 20198 = 0" "weekday 20199 = 1" "weekday 20200 = 2"
  by code_simp+

lemma holidays_april_2025:
  "''2025-04-17'' \<notin> set UK_BANK_HOLIDAYS"
  "''2025-04-18'' \<in> set UK_BANK_HOLIDAYS" "''2025-04-21'' \<in> set UK_BANK_HOLIDAYS"
  "''2025-04-22'' \<notin> set UK_BANK_HOLIDAYS"
  by (simp_all add: UK_BANK_HOLIDAYS_def)

text \<open>
  C5: one working day added to a start on 2025-04-17 is claimed to give 2025-04-22, by
  counting only days that are neither Saturday, Sunday nor a listed holiday. The weekend
  test reads the local day and the holiday test the date on the universal clock. With the
  local clock one hour ahead, as in the United Kingdom in April, a start at half past
  midnight on 17 April is still 16 April on the universal clock: after one step the local
  day is Friday 18 April, the date looked up in the list is 2025-04-17, which is no
  holiday, and the loop counts the day. The function returns 18 April 2025, Good Friday,
  a date of its own holiday list.
\<close>

theorem addWorkingDays_counts_good_friday:
  "addWorkingDays (\<lambda>_. 3600000) (\<lambda>_. 3600000) 1744846200000 1 = Some (Inr 1744932600000) \<and>
   isoDate ((1744846200000 + 3600000) div msPerDay) = ''2025-04-17'' \<and>
   isoDate ((1744932600000 + 3600000) div msPerDay) = ''2025-04-18'' \<and>
   ''2025-04-18'' \<in> set UK_BANK_HOLIDAYS \<and>
   toISODate 1744932600000 = ''2025-04-17''"
proof -
  have n: "setDateNext (\<lambda>_. 3600000) (\<lambda>_. 3600000) 1744846200000 = Some 1744932600000"
    by (simp add: setDateNext_def msPerDay_def maxTime_def)
  have i: "toISODate 1744932600000 = isoDate 20195"
    by (simp add: toISODate_def msPerDay_def)
  have g: "getDay (\<lambda>_. 3600000) 1744932600000 = weekday 20196"
    by (simp add: getDay_def msPerDay_def)
  have "working_days_loop (\<lambda>_. 3600000) (\<lambda>_. 3600000) 1 1744846200000 0 =
      working_days_loop (\<lambda>_. 3600000) (\<lambda>_. 3600000) 1 1744932600000 1"
    using loop_count [OF _ n, of 0 1] by (simp add: i g april_2025 holidays_april_2025)
  then have "addWorkingDays (\<lambda>_. 3600000) (\<lambda>_. 3600000) 1744846200000 1 = Some (Inr 1744932600000)"
    by (simp add: addWorkingDays_def loop_done)
  moreover have "(1744846200000 + 3600000) div msPerDay = 20195"
      "(1744932600000 + 3600000) div msPerDay = 20196"
    by (simp_all add: msPerDay_def)
  ultimately show ?thesis by (simp add: i april_2025 holidays_april_2025)
qed

text \<open>
  Where the start falls on 17 April on both clocks, and the offset does not change, the
  walk is the one described: the 18th is a holiday, the 19th and 20th are Saturday and
  Sunday, the 21st is a holiday, and Tuesday the 22nd is counted.
\<close>

lemma addWorkingDays_easter_2025:
  assumes "t div msPerDay = 20195" and "(t + offset) div msPerDay = 20195"
  shows "addWorkingDays (\<lambda>_. offset) (\<lambda>_. offset) t 1 = Some (Inr (t + 5 * msPerDay)) \<and>
         toISODate t = ''2025-04-17'' \<and>
         toISODate (t + 1 * msPerDay) \<in> set UK_BANK_HOLIDAYS \<and>
         getDay (\<lambda>_. offset) (t + 2 * msPerDay) = 6 \<and>
         getDay (\<lambda>_. offset) (t + 3 * msPerDay) = 0 \<and>
         toISODate (t + 4 * msPerDay) \<in> set UK_BANK_HOLIDAYS \<and>
         toISODate (t + 5 * msPerDay) = ''2025-04-22'' \<and>
         (t + 5 * msPerDay + offset) div msPerDay = 20200"
proof -
  define r where "r k = t + k * msPerDay" for k
  have u: "toISODate (r k) = isoDate (20195 + k)" for k
    by (simp only: r_def toISODate_def day_shift assms(1))
  have "r k + offset = (t + offset) + k * msPerDay" for k by (simp add: r_def)
  then have l: "getDay (\<lambda>_. offset) (r k) = weekday (20195 + k)" for k
    by (simp only: getDay_def day_shift assms(2))
  have s: "r k + msPerDay = r (k + 1)" for k
    by (simp add: r_def algebra_simps)
  have r0: "r 0 = t" by (simp add: r_def)
  have "0 \<le> t" "t < 20196 * msPerDay"
    using assms(1) by (simp_all add: msPerDay_def)
  then have "0 \<le> k \<Longrightarrow> k \<le> 5 \<Longrightarrow> abs (r k) \<le> maxTime" for k
    by (simp add: r_def msPerDay_def maxTime_def)
  then have n: "0 \<le> k \<Longrightarrow> k \<le> 4 \<Longrightarrow>
      setDateNext (\<lambda>_. offset) (\<lambda>_. offset) (r k) = Some (r (k + 1))" for k
    using setDateNext_constant [of "r k" offset] by (simp add: s)
  have "working_days_loop (\<lambda>_. offset) (\<lambda>_. offset) 1 (r 0) 0 =
      working_days_loop (\<lambda>_. offset) (\<lambda>_. offset) 1 (r 1) 0"
    using loop_skip [OF _ n [of 0], of 0 1] u [of 1] holidays_april_2025
    by (simp add: april_2025)
  also have "\<dots> = working_days_loop (\<lambda>_. offset) (\<lambda>_. offset) 1 (r 2) 0"
    using loop_skip [OF _ n [of 1], of 0 1] l [of 2] by (simp add: april_2025)
  also have "\<dots> = working_days_loop (\<lambda>_. offset) (\<lambda>_. offset) 1 (r 3) 0"
    using loop_skip [OF _ n [of 2], of 0 1] l [of 3] by (simp add: april_2025)
  also have "\<dots> = working_days_loop (\<lambda>_. offset) (\<lambda>_. offset) 1 (r 4) 0"
    using loop_skip [OF _ n [of 3], of 0 1] u [of 4] holidays_april_2025
    by (simp add: april_2025)
  also have "\<dots> = working_days_loop (\<lambda>_. offset) (\<lambda>_. offset) 1 (r 5) 1"
    using loop_count [OF _ n [of 4], of 0 1] u [of 5] l [of 5] holidays_april_2025
    by (simp add: april_2025)
  also have "\<dots> = Some (Inr (r 5))"
    by (simp add: loop_done)
  finally have "addWorkingDays (\<lambda>_. offset) (\<lambda>_. offset) t 1 = Some (Inr (r 5))"
    by (simp add: addWorkingDays_def r0)
  moreover have "toISODate t = ''2025-04-17''"
    using u [of 0] by (simp add: april_2025 r0)
  moreover have "toISODate (r 1) \<in> set UK_BANK_HOLIDAYS" "toISODate (r 4) \<in> set UK_BANK_HOLIDAYS"
    using u [of 1] u [of 4] holidays_april_2025 by (simp_all add: april_2025)
  moreover have "getDay (\<lambda>_. offset) (r 2) = 6" "getDay (\<lambda>_. offset) (r 3) = 0"
    using l [of 2] l [of 3] by (simp_all add: april_2025)
  moreover have "toISODate (r 5) = ''2025-04-22''"
    using u [of 5] by (simp add: april_2025)
  moreover have "(r 5 + offset) div msPerDay = 20200"
    using assms(2) day_shift [of "t + offset" 5] by (simp add: r_def algebra_simps)
  ultimately show ?thesis unfolding r_def by simp
qed

text \<open>
  Across a change of the clocks a step keeps the local time of day: from noon on
  29 March 2025 in the United Kingdom the next date is 23 hours on.
\<close>

lemma setDateNext_clock_change:
  "setDateNext (\<lambda>t. if 1743296400000 \<le> t then 3600000 else 0)
     (\<lambda>l. if 1743300000000 \<le> l then 3600000 else 0) 1743249600000 =
   Some (1743249600000 + 23 * 3600000)"
  by (simp add: setDateNext_def msPerDay_def maxTime_def)

section \<open>Properties of \<open>extractFacts\<close>\<close>

subsection \<open>White space\<close>

lemma startsWith_iff: "startsWith s p \<longleftrightarrow> (\<exists>r. s = p @ r)"
  by (induction s p rule: startsWith.induct) auto

lemma strip_one_Some:
  assumes "strip_one ws s = Some s'"
  shows "\<exists>w \<in> set ws. w \<noteq> [] \<and> s = w @ s'"
proof -
  obtain w where w: "List.find (\<lambda>w. w \<noteq> [] \<and> startsWith s w) ws = Some w" "s' = drop (length w) s"
    using assms by (auto simp: strip_one_def split: option.splits)
  from w(1) have "w \<in> set ws" "w \<noteq> []" "startsWith s w"
    by (auto simp: find_Some_iff)
  then show ?thesis using w(2) by (auto simp: startsWith_iff)
qed

lemma white_space_chars_all:
  "\<forall>w \<in> set white_space. w \<noteq> [] \<and> CHR ''`'' \<notin> set w"
  by code_simp

lemma white_space_prefix_free:
  "\<forall>a \<in> set white_space. \<forall>b \<in> set white_space. startsWith a b \<longrightarrow> a = b"
  by code_simp

lemma white_space_chars:
  "w \<in> set white_space \<Longrightarrow> w \<noteq> [] \<and> CHR ''`'' \<notin> set w"
  using white_space_chars_all by blast

lemma strip_one_white:
  assumes "w \<in> set white_space"
  shows "strip_one white_space (w @ x) = Some x"
proof -
  have "w \<noteq> [] \<and> startsWith (w @ x) w"
    using white_space_chars [OF assms] by (simp add: startsWith_iff)
  then have "List.find (\<lambda>v. v \<noteq> [] \<and> startsWith (w @ x) v) white_space \<noteq> None"
    using assms by (auto simp: find_None_iff)
  then obtain x' where x': "strip_one white_space (w @ x) = Some x'"
    by (auto simp: strip_one_def split: option.splits)
  then obtain v where v: "v \<in> set white_space" "v \<noteq> []" "w @ x = v @ x'"
    using strip_one_Some by blast
  from v(3) have "startsWith w v \<or> startsWith v w"
    by (auto simp: startsWith_iff append_eq_append_conv2)
  then have "v = w"
    using white_space_prefix_free assms v(1) by blast
  then show ?thesis using v(3) x' by simp
qed

lemma strip_all_None: "strip_one ws s = None \<Longrightarrow> strip_all ws s = s"
  by (subst strip_all.simps) simp

lemma strip_all_Some: "strip_one ws s = Some s' \<Longrightarrow> strip_all ws s = strip_all ws s'"
  by (subst strip_all.simps) simp

lemma strip_all_white:
  "\<exists>pre. s = pre @ strip_all white_space s \<and> CHR ''`'' \<notin> set pre \<and>
     (\<forall>x. strip_all white_space (pre @ x) = strip_all white_space x)"
proof (induction "length s" arbitrary: s rule: less_induct)
  case less
  show ?case
  proof (cases "strip_one white_space s")
    case None
    then show ?thesis by (intro exI [of _ "[]"]) (simp add: strip_all_None)
  next
    case (Some s')
    then obtain w where w: "w \<in> set white_space" "w \<noteq> []" "s = w @ s'"
      using strip_one_Some by blast
    then have "length s' < length s" by simp
    then obtain pre where pre: "s' = pre @ strip_all white_space s'" "CHR ''`'' \<notin> set pre"
        "\<forall>x. strip_all white_space (pre @ x) = strip_all white_space x"
      using less by blast
    have "strip_all white_space ((w @ pre) @ x) = strip_all white_space x" for x
      using strip_all_Some [OF strip_one_white [OF w(1), of "pre @ x"]] pre(3) by simp
    moreover have "s = (w @ pre) @ strip_all white_space s"
      using w(3) pre(1) strip_all_Some [OF Some] by simp
    moreover have "CHR ''`'' \<notin> set (w @ pre)"
      using white_space_chars [OF w(1)] pre(2) by simp
    ultimately show ?thesis by blast
  qed
qed

lemma trim_strip:
  "trim (strip_all white_space s) = trim s"
proof -
  obtain pre where pre: "s = pre @ strip_all white_space s"
      "\<forall>x. strip_all white_space (pre @ x) = strip_all white_space x"
    using strip_all_white [of s] by blast
  have "strip_all white_space (strip_all white_space s) = strip_all white_space (pre @ strip_all white_space s)"
    using pre(2) by simp
  then show ?thesis using pre(1) by (simp add: trim_def)
qed

subsection \<open>The matcher finds the first fenced block\<close>

lemma until_fence_skip:
  "CHR ''`'' \<notin> set w \<Longrightarrow> until_fence (w @ s) = map_option ((@) w) (until_fence s)"
proof (induction w)
  case Nil
  then show ?case by (simp add: option.map_ident)
next
  case (Cons c w)
  then have "\<not> startsWith (c # w @ s) fence" by (auto simp: fence_def)
  then show ?case using Cons by (simp add: option.map_comp comp_def)
qed

lemma until_fence_None_drop:
  "until_fence s = None \<Longrightarrow> until_fence (drop k s) = None"
proof (induction s arbitrary: k)
  case Nil
  then show ?case by simp
next
  case (Cons c cs)
  then have "until_fence cs = None" by (auto split: if_splits)
  then show ?case using Cons by (cases k) auto
qed

lemma until_fence_strip_None:
  "until_fence (strip_all white_space s) = None \<longleftrightarrow> until_fence s = None"
proof -
  obtain pre where "s = pre @ strip_all white_space s" "CHR ''`'' \<notin> set pre"
    using strip_all_white [of s] by blast
  then show ?thesis
    using until_fence_skip [of pre "strip_all white_space s"] by simp
qed

lemma first_match_snoc:
  "first_match (rs @ [r]) = (case first_match rs of Some g \<Rightarrow> Some g | None \<Rightarrow> until_fence r)"
  by (induction rs) (auto split: option.splits)

lemma first_match_space_runs:
  "first_match (space_runs s) = until_fence (strip_all white_space s)"
proof (induction s rule: space_runs.induct)
  case (1 s)
  show ?case
  proof (cases "strip_one white_space s")
    case None
    then show ?thesis
      by (subst space_runs.simps) (simp add: strip_all_None split: option.splits)
  next
    case (Some s')
    then obtain w where w: "w \<in> set white_space" "s = w @ s'"
      using strip_one_Some by blast
    obtain pre where pre: "s' = pre @ strip_all white_space s'" "CHR ''`'' \<notin> set pre"
      using strip_all_white [of s'] by blast
    have "until_fence s = map_option ((@) (w @ pre)) (until_fence (strip_all white_space s'))"
      using until_fence_skip [of "w @ pre" "strip_all white_space s'"] white_space_chars [OF w(1)]
        pre w(2) by simp
    then have "until_fence (strip_all white_space s') = None \<Longrightarrow> until_fence s = None"
      by simp
    then show ?thesis
      using 1 [OF Some] Some
      by (subst space_runs.simps) (auto simp: first_match_snoc strip_all_Some split: option.splits)
  qed
qed

lemma match_at_eq:
  "match_at s =
     (if startsWith s (fence @ ''json'') then until_fence (strip_all white_space (drop 7 s)) else None)"
  by (simp add: match_at_def first_match_space_runs)

lemma after_first_drop:
  "after_first p s = Some rest \<Longrightarrow> \<exists>k \<ge> length p. rest = drop k s"
proof (induction s)
  case Nil
  then show ?case by (auto split: if_splits)
next
  case (Cons c cs)
  show ?case
  proof (cases "startsWith (c # cs) p")
    case True
    then show ?thesis using Cons.prems by (intro exI [of _ "length p"]) simp
  next
    case False
    then have "after_first p cs = Some rest" using Cons.prems by simp
    then obtain k where "k \<ge> length p" "rest = drop k cs" using Cons.IH by blast
    then show ?thesis by (intro exI [of _ "Suc k"]) simp
  qed
qed

lemma regex_match_eq:
  "regex_match s =
     (case after_first (fence @ ''json'') s of
        None \<Rightarrow> None
      | Some rest \<Rightarrow> until_fence (strip_all white_space rest))"
proof (induction s)
  case Nil
  then show ?case by (simp add: match_at_eq fence_def)
next
  case (Cons c cs)
  show ?case
  proof (cases "startsWith (c # cs) (fence @ ''json'')")
    case False
    then show ?thesis using Cons by (simp add: match_at_eq)
  next
    case True
    have len: "length (fence @ ''json'') = 7" by (simp add: fence_def)
    have "after_first (fence @ ''json'') (c # cs) = Some (drop (length (fence @ ''json'')) (c # cs))"
      using True by simp
    then have a: "after_first (fence @ ''json'') (c # cs) = Some (drop 7 (c # cs))"
      by (simp only: len)
    show ?thesis
    proof (cases "until_fence (strip_all white_space (drop 7 (c # cs)))")
      case (Some g)
      then show ?thesis using True a by (simp add: match_at_eq)
    next
      case None
      then have n: "until_fence (drop 6 cs) = None"
        by (simp add: until_fence_strip_None)
      have "regex_match cs = None"
      proof (cases "after_first (fence @ ''json'') cs")
        case None
        then show ?thesis using Cons by simp
      next
        case (Some rest)
        then obtain k where k: "k \<ge> 7" "rest = drop k cs"
          using after_first_drop [OF Some] unfolding len by blast
        then have "rest = drop (k - 6) (drop 6 cs)" by simp
        then have "until_fence rest = None"
          using until_fence_None_drop [OF n] by simp
        then show ?thesis using Cons Some by (simp add: until_fence_strip_None)
      qed
      then show ?thesis using True a None by (simp add: match_at_eq)
    qed
  qed
qed

lemma regex_match_block:
  "(case first_json_block s of
      None \<Rightarrow> regex_match s = None
    | Some block \<Rightarrow> \<exists>g. regex_match s = Some g \<and> trim g = trim block)"
proof (cases "after_first (fence @ ''json'') s")
  case None
  then show ?thesis by (simp add: first_json_block_def regex_match_eq)
next
  case (Some rest)
  obtain pre where pre: "rest = pre @ strip_all white_space rest" "CHR ''`'' \<notin> set pre"
      "\<forall>x. strip_all white_space (pre @ x) = strip_all white_space x"
    using strip_all_white [of rest] by blast
  have u: "until_fence rest = map_option ((@) pre) (until_fence (strip_all white_space rest))"
    using until_fence_skip [OF pre(2), of "strip_all white_space rest"] pre(1) by simp
  show ?thesis
  proof (cases "until_fence (strip_all white_space rest)")
    case None
    then show ?thesis using Some u by (simp add: first_json_block_def regex_match_eq)
  next
    case (Some g)
    have "trim (pre @ g) = trim g"
      using pre(3) by (simp add: trim_def)
    then show ?thesis
      using Some \<open>after_first (fence @ ''json'') s = Some rest\<close> u
      by (simp add: first_json_block_def regex_match_eq)
  qed
qed

text \<open>
  C10: for every text, and whatever \<^verbatim>\<open>JSON.parse\<close> does, \<open>extractFacts\<close> returns and
  raises nothing; it returns the \<open>facts\<close> member exactly when the first fenced \<open>json\<close>
  block parses to a value whose members \<open>extractionComplete\<close> and \<open>facts\<close> are truthy, and
  \<^verbatim>\<open>null\<close> in every other case: no such block, a block that does not parse, a member
  that is missing or falsy.
\<close>

theorem extractFacts_first_json_block:
  "extractFacts JSON_parse s = Inr (extractFacts_spec JSON_parse s)"
proof (cases "first_json_block s")
  case None
  then have "regex_match s = None" using regex_match_block [of s] by simp
  then show ?thesis using None by (simp add: extractFacts_def extractFacts_spec_def)
next
  case (Some block)
  then obtain g where g: "regex_match s = Some g" "trim g = trim block"
    using regex_match_block [of s] by auto
  show ?thesis
  proof (cases "JSON_parse (trim block)")
    case None
    then show ?thesis
      using Some g by (simp add: extractFacts_def extractFacts_spec_def try_block_def)
  next
    case (Some v)
    then show ?thesis
      using \<open>first_json_block s = Some block\<close> g
      by (cases v)
        (auto simp: extractFacts_def extractFacts_spec_def try_block_def get_member_def
          js_truthy_def split: option.splits)
  qed
qed

text \<open>An instance: a reply with a fenced block, and a parser that accepts the trimmed block.\<close>

lemma extractFacts_example:
  "extractFacts
     (\<lambda>t. if t = ''{}'' then
            Some (JObject [(''extractionComplete'', JBool True),
                           (''facts'', JObject [(''bodyType'', JString ''gp'')])])
          else None)
     ''Here is what I understood. ```json  {}  ``` Is that right?'' =
   Inr (Some (JObject [(''bodyType'', JString ''gp'')]))"
  by code_simp

end
